theory Spec2Isabelle
  imports Main "HOL-Library.Word"
begin

unbundle bit_operations_syntax

section \<open>The Lua pipeline of the Indigo Virtual Switch\<close>

text \<open>
  A shallow embedding of \<^verbatim>\<open>modules/pipeline_lua/module/src/pipeline_lua.c\<close>: the
  per-packet entry point \<^verbatim>\<open>pipeline_lua_process\<close>, the upload handler
  \<^verbatim>\<open>handle_lua_upload\<close>, the commit loop \<^verbatim>\<open>commit_lua_upload\<close> with its
  \<^verbatim>\<open>cleanup\<close> label, and the message listener.

  The file's globals (\<^verbatim>\<open>lua\<close>, \<^verbatim>\<open>context\<close>, \<^verbatim>\<open>process_ref\<close>,
  \<^verbatim>\<open>upload_chunks\<close>) are the fields of a state record that every function takes and
  returns. What the code sends out (log lines, error replies) and every call it makes
  into the Lua library is appended, in program order, to the \<open>trace\<close> field of that
  record. A function that may not return (a script that loops, a read outside the
  buffer) returns \<open>None\<close>.
\<close>

subsection \<open>Machine types\<close>

type_synonym byte = "8 word"
type_synonym uint16_t = "16 word"
type_synonym uint32_t = "32 word"

text \<open>\<^verbatim>\<open>of_str64_t\<close> is an array of 64 characters.\<close>

type_synonym of_str64_t = "byte list"

type_synonym indigo_cxn_id_t = int

datatype indigo_error_t =
    INDIGO_ERROR_NONE
  | INDIGO_ERROR_PENDING
  | INDIGO_ERROR_RESOURCE
  | INDIGO_ERROR_PARAM
  | INDIGO_ERROR_UNKNOWN

datatype indigo_core_listener_result_t =
    INDIGO_CORE_LISTENER_RESULT_PASS
  | INDIGO_CORE_LISTENER_RESULT_DROP

datatype of_object_id_t = OF_BSN_LUA_UPLOAD | OF_OBJECT_OTHER nat

datatype of_error_type_t =
    OF_ERROR_TYPE_HELLO_FAILED
  | OF_ERROR_TYPE_BAD_REQUEST
  | OF_ERROR_TYPE_BAD_ACTION
  | OF_ERROR_TYPE_FLOW_MOD_FAILED

datatype of_request_failed_t =
    OF_REQUEST_FAILED_BAD_VERSION
  | OF_REQUEST_FAILED_BAD_TYPE
  | OF_REQUEST_FAILED_BAD_STAT
  | OF_REQUEST_FAILED_BAD_EXPERIMENTER
  | OF_REQUEST_FAILED_BAD_SUBTYPE
  | OF_REQUEST_FAILED_EPERM
  | OF_REQUEST_FAILED_BAD_LEN

text \<open>
  An OpenFlow object as this file reads it: its \<^verbatim>\<open>object_id\<close> and, for an upload
  message, the three fields returned by \<^verbatim>\<open>of_bsn_lua_upload_data_get\<close>,
  \<^verbatim>\<open>of_bsn_lua_upload_flags_get\<close> and \<^verbatim>\<open>of_bsn_lua_upload_filename_get\<close>.
  The octets \<^verbatim>\<open>data\<close> are a byte list whose length is \<^verbatim>\<open>data.bytes\<close>.
\<close>

record of_object =
  object_id :: of_object_id_t
  bsn_lua_upload_data :: "byte list"
  bsn_lua_upload_flags :: uint16_t
  bsn_lua_upload_filename :: of_str64_t

text \<open>
  Modelled from the spec: the constant \<^verbatim>\<open>OFP_BSN_LUA_UPLOAD_MORE\<close> comes from the
  LOCI headers, which are not among the sources. The spec describes the flags as a
  bitmask with a MORE bit; it is the lowest bit of the OpenFlow extension.
\<close>

definition OFP_BSN_LUA_UPLOAD_MORE :: uint16_t where
  "OFP_BSN_LUA_UPLOAD_MORE = 1"

definition LUA_REGISTRYINDEX :: int where
  "LUA_REGISTRYINDEX = - 10000"

subsection \<open>Effects\<close>

datatype aim_log_level = VERBOSE | ERROR

datatype log_arg = Str string | CStr "byte list" | U32 uint32_t

text \<open>
  One entry of the trace. A call into the Lua library is recorded with its arguments
  and, for the two calls whose status the code tests, with the status it returned.
\<close>

datatype event =
    AIM_LOG aim_log_level string "log_arg list"
  | Lua_rawgeti int int
  | Lua_loadbuffer "byte list" uint32_t "byte list" int
  | Lua_getglobal string
  | Lua_setfenv int
  | Lua_pcall nat nat int int
  | Send_error_reply indigo_cxn_id_t of_object of_error_type_t of_request_failed_t

text \<open>\<^verbatim>\<open>struct context\<close>: the per-packet information shared with Lua.\<close>

record ('f, 'x, 'a) context_t =
  stats :: 'x
  actx :: 'a
  fields' :: 'f

text \<open>
  The Lua library and \<^verbatim>\<open>pipeline_lua_fields_from_key\<close> are not part of this file;
  they are parameters. \<open>'l\<close> is the interpreter state behind \<^verbatim>\<open>lua_State *\<close>.
  \<^verbatim>\<open>lua_pcall\<close> runs script code, which reads and writes the shared context through
  the \<^verbatim>\<open>_context\<close> pointer and which may never return (\<open>None\<close>).
\<close>

record ('l, 'k, 'f, 'x, 'a) lua_api =
  pipeline_lua_fields_from_key :: "'k \<Rightarrow> 'f \<Rightarrow> 'f"
  lua_rawgeti :: "'l \<Rightarrow> int \<Rightarrow> int \<Rightarrow> 'l"
  lua_pcall :: "'l \<Rightarrow> nat \<Rightarrow> nat \<Rightarrow> int \<Rightarrow> ('f, 'x, 'a) context_t
                  \<Rightarrow> (int \<times> 'l \<times> ('f, 'x, 'a) context_t) option"
  lua_tostring :: "'l \<Rightarrow> int \<Rightarrow> string"
  luaL_loadbuffer :: "'l \<Rightarrow> byte list \<Rightarrow> uint32_t \<Rightarrow> byte list \<Rightarrow> int \<times> 'l"
  lua_getglobal :: "'l \<Rightarrow> string \<Rightarrow> 'l"
  lua_setfenv :: "'l \<Rightarrow> int \<Rightarrow> 'l"

record ('l, 'f, 'x, 'a) state =
  lua :: 'l
  ctx :: "('f, 'x, 'a) context_t"
  process_ref :: int
  upload_chunks :: "byte list"
  trace :: "event list"

subsection \<open>The byte buffer\<close>

text \<open>
  Modelled from the spec: \<^verbatim>\<open>struct xbuf\<close> and its operations (\<^verbatim>\<open>xbuf_init\<close>,
  \<^verbatim>\<open>xbuf_reserve\<close>, \<^verbatim>\<open>xbuf_length\<close>, \<^verbatim>\<open>xbuf_data\<close>, \<^verbatim>\<open>xbuf_reset\<close>) are
  declared in a header that is not among the sources. The spec describes the pending
  upload buffer as an ordered sequence that is appended to while chunks accumulate and
  is emptied after a commit. Here it is the list of the bytes it holds:
  \<^verbatim>\<open>xbuf_reserve\<close> appends \<open>len\<close> bytes and returns the offset of the first of them,
  \<^verbatim>\<open>xbuf_length\<close> is the number of bytes as a 32-bit value, \<^verbatim>\<open>xbuf_reset\<close> drops
  them all. The reserved bytes hold whatever the memory held; \<open>fill\<close> stands for it.
\<close>

definition xbuf_init :: "byte list" where
  "xbuf_init = []"

definition xbuf_length :: "byte list \<Rightarrow> uint32_t" where
  "xbuf_length xbuf = of_nat (length xbuf)"

definition xbuf_reserve :: "byte list \<Rightarrow> nat \<Rightarrow> byte \<Rightarrow> nat \<times> byte list" where
  "xbuf_reserve xbuf len fill = (length xbuf, xbuf @ replicate len fill)"

definition xbuf_reset :: "byte list \<Rightarrow> byte list" where
  "xbuf_reset xbuf = []"

text \<open>
  \<^verbatim>\<open>struct upload_chunk\<close> is a 64-byte file name, a 32-bit size and the payload:
  the header is 68 bytes, the payload starts right after it. The size is stored in the
  byte order of the machine, little-endian on the switch's x86 targets.
\<close>

definition sizeof_upload_chunk :: nat where
  "sizeof_upload_chunk = 68"

definition sizeof_of_str64_t :: nat where
  "sizeof_of_str64_t = 64"

definition store_u32 :: "uint32_t \<Rightarrow> byte list" where
  "store_u32 w = [ucast w, ucast (drop_bit 8 w), ucast (drop_bit 16 w), ucast (drop_bit 24 w)]"

definition load_u32 :: "byte list \<Rightarrow> uint32_t" where
  "load_u32 bs =
     (ucast (bs ! 0) OR push_bit 8 (ucast (bs ! 1)) OR
      push_bit 16 (ucast (bs ! 2)) OR push_bit 24 (ucast (bs ! 3)))"

text \<open>\<^verbatim>\<open>memcpy\<close> of \<open>src\<close> to offset \<open>dst\<close> of a memory region.\<close>

definition memcpy :: "byte list \<Rightarrow> nat \<Rightarrow> byte list \<Rightarrow> byte list" where
  "memcpy mem dst src = take dst mem @ src @ drop (dst + length src) mem"

text \<open>A C string: the bytes before the first zero byte.\<close>

definition c_string :: "byte list \<Rightarrow> byte list" where
  "c_string bs = takeWhile (\<lambda>b. b \<noteq> 0) bs"

text \<open>
  The fields of the \<^verbatim>\<open>struct upload_chunk\<close> at offset \<open>off\<close> of the buffer. The
  header and the payload it announces must lie inside the buffer: \<open>chunk_at\<close> is
  \<open>None\<close> otherwise, as a read outside the buffer has no defined result.
\<close>

record upload_chunk =
  filename :: of_str64_t
  chunk_size :: uint32_t
  data :: "byte list"

definition chunk_at :: "byte list \<Rightarrow> nat \<Rightarrow> upload_chunk option" where
  "chunk_at xbuf off =
     (if off + sizeof_upload_chunk \<le> length xbuf then
        let sz = load_u32 (take 4 (drop (off + sizeof_of_str64_t) xbuf)) in
        if off + sizeof_upload_chunk + unat sz \<le> length xbuf then
          Some \<lparr>filename = take sizeof_of_str64_t (drop off xbuf),
                chunk_size = sz,
                data = take (unat sz) (drop (off + sizeof_upload_chunk) xbuf)\<rparr>
        else None
      else None)"

subsection \<open>Per-packet processing\<close>

definition pipeline_lua_process ::
  "('l, 'k, 'f, 'x, 'a) lua_api \<Rightarrow> 'k \<Rightarrow> 'x \<Rightarrow> 'a \<Rightarrow> ('l, 'f, 'x, 'a) state
     \<Rightarrow> (indigo_error_t \<times> ('l, 'f, 'x, 'a) state) option" where
  "pipeline_lua_process api key stats' actx' s =
     (let c = \<lparr>stats = stats', actx = actx',
                fields' = pipeline_lua_fields_from_key api key (fields' (ctx s))\<rparr>;
          L1 = lua_rawgeti api (lua s) LUA_REGISTRYINDEX (process_ref s)
      in case lua_pcall api L1 0 0 0 c of
           None \<Rightarrow> None
         | Some (rc, L2, c2) \<Rightarrow>
             Some (INDIGO_ERROR_NONE,
               s\<lparr>lua := L2, ctx := c2,
                 trace := trace s @
                   [Lua_rawgeti LUA_REGISTRYINDEX (process_ref s), Lua_pcall 0 0 0 rc] @
                   (if rc \<noteq> 0
                    then [AIM_LOG ERROR ''Failed to execute script: %s''
                            [Str (lua_tostring api L2 (- 1))]]
                    else [])\<rparr>))"

subsection \<open>Upload and commit\<close>

definition cleanup_lua_upload :: "('l, 'f, 'x, 'a) state \<Rightarrow> ('l, 'f, 'x, 'a) state" where
  "cleanup_lua_upload s = s\<lparr>upload_chunks := xbuf_reset (upload_chunks s)\<rparr>"

text \<open>
  The \<^verbatim>\<open>while\<close> loop of \<^verbatim>\<open>commit_lua_upload\<close>, from the offset it has reached. Its
  result is the state at the \<^verbatim>\<open>cleanup\<close> label, reached by either \<^verbatim>\<open>goto\<close> or by
  the loop condition failing.
\<close>

partial_function (option) commit_loop ::
  "('l, 'k, 'f, 'x, 'a) lua_api \<Rightarrow> indigo_cxn_id_t \<Rightarrow> of_object \<Rightarrow> uint32_t
     \<Rightarrow> ('l, 'f, 'x, 'a) state \<Rightarrow> ('l, 'f, 'x, 'a) state option" where
  "commit_loop api cxn_id msg offset s =
     (if offset < xbuf_length (upload_chunks s) then
        case chunk_at (upload_chunks s) (unat offset) of
          None \<Rightarrow> None
        | Some chunk \<Rightarrow>
            let offset' = offset + of_nat sizeof_upload_chunk + chunk_size chunk;
                name = c_string (drop (unat offset) (upload_chunks s));
                t1 = trace s @
                  [AIM_LOG VERBOSE ''Loading Lua chunk %s, %u bytes''
                     [CStr name, U32 (chunk_size chunk)]];
                (rc, L1) = luaL_loadbuffer api (lua s) (data chunk) (chunk_size chunk) name;
                t2 = t1 @ [Lua_loadbuffer (data chunk) (chunk_size chunk) name rc]
            in if rc \<noteq> 0 then
                 Some (s\<lparr>lua := L1,
                   trace := t2 @
                     [AIM_LOG ERROR ''Failed to load code: %s'' [Str (lua_tostring api L1 (- 1))],
                      Send_error_reply cxn_id msg
                        OF_ERROR_TYPE_BAD_REQUEST OF_REQUEST_FAILED_EPERM]\<rparr>)
               else
                 let L2 = lua_getglobal api L1 ''sandbox'';
                     L3 = lua_setfenv api L2 (- 2);
                     t3 = t2 @ [Lua_getglobal ''sandbox'', Lua_setfenv (- 2)]
                 in (case lua_pcall api L3 0 0 0 (ctx s) of
                       None \<Rightarrow> None
                     | Some (rc', L4, c4) \<Rightarrow>
                         if rc' \<noteq> 0 then
                           Some (s\<lparr>lua := L4, ctx := c4,
                             trace := t3 @
                               [Lua_pcall 0 0 0 rc',
                                AIM_LOG ERROR ''Failed to execute code %s: %s''
                                  [CStr name, Str (lua_tostring api L4 (- 1))],
                                Send_error_reply cxn_id msg
                                  OF_ERROR_TYPE_BAD_REQUEST OF_REQUEST_FAILED_EPERM]\<rparr>)
                         else
                           commit_loop api cxn_id msg offset'
                             (s\<lparr>lua := L4, ctx := c4, trace := t3 @ [Lua_pcall 0 0 0 rc']\<rparr>))
      else Some s)"

definition commit_lua_upload ::
  "('l, 'k, 'f, 'x, 'a) lua_api \<Rightarrow> indigo_cxn_id_t \<Rightarrow> of_object
     \<Rightarrow> ('l, 'f, 'x, 'a) state \<Rightarrow> ('l, 'f, 'x, 'a) state option" where
  "commit_lua_upload api cxn_id msg s =
     map_option cleanup_lua_upload (commit_loop api cxn_id msg 0 s)"

text \<open>
  The block of \<^verbatim>\<open>handle_lua_upload\<close> guarded by \<^verbatim>\<open>data.bytes > 0\<close>: reserve the
  chunk at the end of the buffer, then write its size, its file name (all 64 bytes)
  and its payload. The three writes cover every reserved byte. The payload of an
  OpenFlow message is shorter than \<open>2 ^ 16\<close> bytes, so the reserved length, header plus
  payload, is computed without overflow and is a natural number here; the size field
  is the 32-bit value of \<^verbatim>\<open>data.bytes\<close>.
\<close>

definition store_chunk ::
  "byte \<Rightarrow> of_str64_t \<Rightarrow> byte list \<Rightarrow> ('l, 'f, 'x, 'a) state \<Rightarrow> ('l, 'f, 'x, 'a) state" where
  "store_chunk fill fname dat s =
     (let (chunk, xbuf1) =
            xbuf_reserve (upload_chunks s) (sizeof_upload_chunk + length dat) fill;
          xbuf2 = memcpy xbuf1 (chunk + sizeof_of_str64_t) (store_u32 (of_nat (length dat)));
          xbuf3 = memcpy xbuf2 chunk (take sizeof_of_str64_t fname);
          xbuf4 = memcpy xbuf3 (chunk + sizeof_upload_chunk) dat
      in s\<lparr>upload_chunks := xbuf4,
           trace := trace s @
             [AIM_LOG VERBOSE ''Uploaded Lua chunk %s, %u bytes''
                [CStr (c_string (drop chunk xbuf4)), U32 (of_nat (length dat))]]\<rparr>)"

definition handle_lua_upload ::
  "('l, 'k, 'f, 'x, 'a) lua_api \<Rightarrow> byte \<Rightarrow> indigo_cxn_id_t \<Rightarrow> of_object
     \<Rightarrow> ('l, 'f, 'x, 'a) state \<Rightarrow> ('l, 'f, 'x, 'a) state option" where
  "handle_lua_upload api fill cxn_id msg s =
     (let dat = bsn_lua_upload_data msg;
          flags = bsn_lua_upload_flags msg;
          fname = (bsn_lua_upload_filename msg)[63 := 0];
          s1 = (if length dat > 0 then store_chunk fill fname dat s else s)
      in if flags AND OFP_BSN_LUA_UPLOAD_MORE = 0
         then commit_lua_upload api cxn_id msg s1
         else Some s1)"

definition message_listener ::
  "('l, 'k, 'f, 'x, 'a) lua_api \<Rightarrow> byte \<Rightarrow> indigo_cxn_id_t \<Rightarrow> of_object
     \<Rightarrow> ('l, 'f, 'x, 'a) state
     \<Rightarrow> (indigo_core_listener_result_t \<times> ('l, 'f, 'x, 'a) state) option" where
  "message_listener api fill cxn_id msg s =
     (case object_id msg of
        OF_BSN_LUA_UPLOAD \<Rightarrow>
          map_option (Pair INDIGO_CORE_LISTENER_RESULT_DROP)
            (handle_lua_upload api fill cxn_id msg s)
      | OF_OBJECT_OTHER _ \<Rightarrow> Some (INDIGO_CORE_LISTENER_RESULT_PASS, s))"

subsection \<open>The buffer as a list of chunks\<close>

text \<open>
  The bytes that \<^verbatim>\<open>handle_lua_upload\<close> writes for one chunk, given its 64-byte
  file name and its payload, and the buffer holding a list of chunks in arrival order.
  \<open>run_chunks\<close> is the body of the commit loop run over such a list instead of over
  the bytes; the loop is shown below to compute the same result. A chunk is well
  formed when its file name has 64 bytes, the last of them zero, and the length of its
  payload fits the 32-bit size field.
\<close>

definition encode_chunk :: "of_str64_t \<times> byte list \<Rightarrow> byte list" where
  "encode_chunk c = fst c @ store_u32 (of_nat (length (snd c))) @ snd c"

definition encode_chunks :: "(of_str64_t \<times> byte list) list \<Rightarrow> byte list" where
  "encode_chunks cs = concat (map encode_chunk cs)"

definition wf_chunk :: "of_str64_t \<times> byte list \<Rightarrow> bool" where
  "wf_chunk c \<longleftrightarrow> length (fst c) = 64 \<and> fst c ! 63 = 0 \<and> length (snd c) < 2 ^ 32"

fun run_chunks ::
  "('l, 'k, 'f, 'x, 'a) lua_api \<Rightarrow> indigo_cxn_id_t \<Rightarrow> of_object
     \<Rightarrow> (of_str64_t \<times> byte list) list
     \<Rightarrow> ('l, 'f, 'x, 'a) state \<Rightarrow> ('l, 'f, 'x, 'a) state option" where
  "run_chunks api cxn_id msg [] s = Some s"
| "run_chunks api cxn_id msg (c # cs) s =
     (let name = c_string (fst c);
          sz = of_nat (length (snd c));
          t1 = trace s @
            [AIM_LOG VERBOSE ''Loading Lua chunk %s, %u bytes'' [CStr name, U32 sz]];
          (rc, L1) = luaL_loadbuffer api (lua s) (snd c) sz name;
          t2 = t1 @ [Lua_loadbuffer (snd c) sz name rc]
      in if rc \<noteq> 0 then
           Some (s\<lparr>lua := L1,
             trace := t2 @
               [AIM_LOG ERROR ''Failed to load code: %s'' [Str (lua_tostring api L1 (- 1))],
                Send_error_reply cxn_id msg
                  OF_ERROR_TYPE_BAD_REQUEST OF_REQUEST_FAILED_EPERM]\<rparr>)
         else
           let L2 = lua_getglobal api L1 ''sandbox'';
               L3 = lua_setfenv api L2 (- 2);
               t3 = t2 @ [Lua_getglobal ''sandbox'', Lua_setfenv (- 2)]
           in (case lua_pcall api L3 0 0 0 (ctx s) of
                 None \<Rightarrow> None
               | Some (rc', L4, c4) \<Rightarrow>
                   if rc' \<noteq> 0 then
                     Some (s\<lparr>lua := L4, ctx := c4,
                       trace := t3 @
                         [Lua_pcall 0 0 0 rc',
                          AIM_LOG ERROR ''Failed to execute code %s: %s''
                            [CStr name, Str (lua_tostring api L4 (- 1))],
                          Send_error_reply cxn_id msg
                            OF_ERROR_TYPE_BAD_REQUEST OF_REQUEST_FAILED_EPERM]\<rparr>)
                   else
                     run_chunks api cxn_id msg cs
                       (s\<lparr>lua := L4, ctx := c4, trace := t3 @ [Lua_pcall 0 0 0 rc']\<rparr>)))"

text \<open>
  A sequence of upload messages handled one after the other, and the states in which
  the pending buffer holds a list of chunks as the handler writes them.
\<close>

fun upload_session ::
  "('l, 'k, 'f, 'x, 'a) lua_api \<Rightarrow> byte \<Rightarrow> indigo_cxn_id_t \<Rightarrow> of_object list
     \<Rightarrow> ('l, 'f, 'x, 'a) state \<Rightarrow> ('l, 'f, 'x, 'a) state option" where
  "upload_session api fill cxn_id [] s = Some s"
| "upload_session api fill cxn_id (msg # msgs) s =
     (case handle_lua_upload api fill cxn_id msg s of
        None \<Rightarrow> None
      | Some s' \<Rightarrow> upload_session api fill cxn_id msgs s')"

definition pending_wf :: "('l, 'f, 'x, 'a) state \<Rightarrow> bool" where
  "pending_wf s \<longleftrightarrow> (\<exists>cs. list_all wf_chunk cs \<and> upload_chunks s = encode_chunks cs)"

subsection \<open>Reading the trace\<close>

text \<open>
  The events appended to the trace between two states, the calls into Lua whose status
  was not zero, the error replies, and the code handed to \<^verbatim>\<open>luaL_loadbuffer\<close>.
\<close>

definition emitted :: "('l, 'f, 'x, 'a) state \<Rightarrow> ('l, 'f, 'x, 'a) state \<Rightarrow> event list" where
  "emitted s s' = drop (length (trace s)) (trace s')"

fun failed :: "event \<Rightarrow> bool" where
  "failed (Lua_loadbuffer d sz n rc) = (rc \<noteq> 0)"
| "failed (Lua_pcall na nr ef rc) = (rc \<noteq> 0)"
| "failed _ = False"

fun is_reply :: "event \<Rightarrow> bool" where
  "is_reply (Send_error_reply cxn m ty code) = True"
| "is_reply _ = False"

fun is_lua_call :: "event \<Rightarrow> bool" where
  "is_lua_call (AIM_LOG lvl fmt args) = False"
| "is_lua_call (Send_error_reply cxn m ty code) = False"
| "is_lua_call _ = True"

fun loads :: "event list \<Rightarrow> (byte list \<times> uint32_t \<times> byte list) list" where
  "loads [] = []"
| "loads (Lua_loadbuffer d sz n rc # t) = (d, sz, n) # loads t"
| "loads (e # t) = loads t"

subsection \<open>What one commit emits\<close>

text \<open>
  The events of one pass of the loop over a chunk: when both the compilation and the
  call succeed, when the compilation fails with status \<open>rc\<close>, and when the call
  fails with status \<open>rc\<close>. \<open>chunk_code\<close> is what \<^verbatim>\<open>luaL_loadbuffer\<close> is given for
  a chunk; \<open>after_failure\<close> is the part of a trace that follows its first failed call.
\<close>

definition chunk_log :: "of_str64_t \<times> byte list \<Rightarrow> event" where
  "chunk_log c = AIM_LOG VERBOSE ''Loading Lua chunk %s, %u bytes''
     [CStr (c_string (fst c)), U32 (of_nat (length (snd c)))]"

definition chunk_load :: "of_str64_t \<times> byte list \<Rightarrow> int \<Rightarrow> event" where
  "chunk_load c rc = Lua_loadbuffer (snd c) (of_nat (length (snd c))) (c_string (fst c)) rc"

definition error_reply :: "indigo_cxn_id_t \<Rightarrow> of_object \<Rightarrow> event" where
  "error_reply cxn_id msg =
     Send_error_reply cxn_id msg OF_ERROR_TYPE_BAD_REQUEST OF_REQUEST_FAILED_EPERM"

definition ok_events :: "of_str64_t \<times> byte list \<Rightarrow> event list" where
  "ok_events c =
     [chunk_log c, chunk_load c 0, Lua_getglobal ''sandbox'', Lua_setfenv (- 2),
      Lua_pcall 0 0 0 0]"

definition load_fail_events ::
  "indigo_cxn_id_t \<Rightarrow> of_object \<Rightarrow> of_str64_t \<times> byte list \<Rightarrow> int \<Rightarrow> string \<Rightarrow> event list" where
  "load_fail_events cxn_id msg c rc m =
     [chunk_log c, chunk_load c rc, AIM_LOG ERROR ''Failed to load code: %s'' [Str m],
      error_reply cxn_id msg]"

definition exec_fail_events ::
  "indigo_cxn_id_t \<Rightarrow> of_object \<Rightarrow> of_str64_t \<times> byte list \<Rightarrow> int \<Rightarrow> string \<Rightarrow> event list" where
  "exec_fail_events cxn_id msg c rc m =
     [chunk_log c, chunk_load c 0, Lua_getglobal ''sandbox'', Lua_setfenv (- 2),
      Lua_pcall 0 0 0 rc,
      AIM_LOG ERROR ''Failed to execute code %s: %s'' [CStr (c_string (fst c)), Str m],
      error_reply cxn_id msg]"

definition fail_events ::
  "indigo_cxn_id_t \<Rightarrow> of_object \<Rightarrow> of_str64_t \<times> byte list \<Rightarrow> event list \<Rightarrow> bool" where
  "fail_events cxn_id msg c t \<longleftrightarrow>
     (\<exists>rc m. rc \<noteq> 0 \<and>
        (t = load_fail_events cxn_id msg c rc m \<or> t = exec_fail_events cxn_id msg c rc m))"

definition chunk_code :: "of_str64_t \<times> byte list \<Rightarrow> byte list \<times> uint32_t \<times> byte list" where
  "chunk_code c = (snd c, of_nat (length (snd c)), c_string (fst c))"

definition after_failure :: "event list \<Rightarrow> event list" where
  "after_failure t = tl (dropWhile (\<lambda>e. \<not> failed e) t)"

text \<open>
  The calls into Lua of a trace are in the order the commit loop prescribes: a
  compilation that failed stands alone; one that succeeded is followed at once by the
  lookup of the global \<^verbatim>\<open>sandbox\<close>, by \<^verbatim>\<open>lua_setfenv\<close> on the compiled chunk below it
  and only then by the call.
\<close>

fun sandbox_bound :: "event list \<Rightarrow> bool" where
  "sandbox_bound [] = True"
| "sandbox_bound (Lua_loadbuffer d sz n rc # t) =
     (if rc \<noteq> 0 then sandbox_bound t
      else (case t of
              Lua_getglobal g # Lua_setfenv i # Lua_pcall na nr ef rc' # t' \<Rightarrow>
                g = ''sandbox'' \<and> i = - 2 \<and> sandbox_bound t'
            | _ \<Rightarrow> False))"
| "sandbox_bound (e # t) = False"

subsection \<open>A stand-in for the Lua library\<close>

text \<open>
  To run the functions on concrete inputs: an interpreter whose state is the stack of
  values pushed so far, which compiles exactly the code in \<open>valid\<close> and whose calls
  fail exactly on the code in \<open>faulty\<close>.
\<close>

definition bytes_of :: "string \<Rightarrow> byte list" where
  "bytes_of str = map (\<lambda>c. of_nat (of_char c)) str"

definition toy_lua ::
  "byte list list \<Rightarrow> byte list list \<Rightarrow> (byte list list, unit, unit, unit, unit) lua_api" where
  "toy_lua valid faulty =
     \<lparr>pipeline_lua_fields_from_key = (\<lambda>k f. f),
      lua_rawgeti = (\<lambda>L i n. bytes_of ''process'' # L),
      lua_pcall = (\<lambda>L na nr ef c.
         case L of
           [] \<Rightarrow> Some (2, [], c)
         | f # L' \<Rightarrow> if f \<in> set faulty then Some (2, bytes_of ''fault'' # L', c)
                     else Some (0, L', c)),
      lua_tostring = (\<lambda>L i. ''message''),
      luaL_loadbuffer = (\<lambda>L d sz n.
         if d \<in> set valid then (0, d # L) else (3, bytes_of ''syntax error'' # L)),
      lua_getglobal = (\<lambda>L n. bytes_of n # L),
      lua_setfenv = (\<lambda>L i. tl L)\<rparr>"

definition toy_state :: "(byte list list, unit, unit, unit) state" where
  "toy_state =
     \<lparr>lua = [], ctx = \<lparr>stats = (), actx = (), fields' = ()\<rparr>, process_ref = 1,
      upload_chunks = xbuf_init, trace = []\<rparr>"

definition name_a_lua :: of_str64_t where
  "name_a_lua = bytes_of ''a.lua'' @ replicate 59 0"

definition upload_msg :: "string \<Rightarrow> uint16_t \<Rightarrow> of_object" where
  "upload_msg code flags =
     \<lparr>object_id = OF_BSN_LUA_UPLOAD, bsn_lua_upload_data = bytes_of code,
      bsn_lua_upload_flags = flags, bsn_lua_upload_filename = name_a_lua\<rparr>"

definition toy_pending :: "string list \<Rightarrow> (byte list list, unit, unit, unit) state" where
  "toy_pending codes =
     toy_state\<lparr>upload_chunks := encode_chunks (map (\<lambda>code. (name_a_lua, bytes_of code)) codes)\<rparr>"

definition toy_load_failed :: "(byte list list, unit, unit, unit) state" where
  "toy_load_failed =
     toy_state\<lparr>lua := [bytes_of ''syntax error''],
       trace := load_fail_events 7 (upload_msg '''' 0) (name_a_lua, bytes_of ''x'') 3 ''message''\<rparr>"

section \<open>Properties\<close>

subsection \<open>Reading back what was stored\<close>

lemma length_store_u32: "length (store_u32 w) = 4"
  by (simp add: store_u32_def)

lemma load_store_u32: "load_u32 (store_u32 w) = w"
proof (rule bit_word_eqI)
  fix n :: nat
  assume n: "n < LENGTH(32)"
  have a: "24 \<le> n \<Longrightarrow> 24 + (n - 24) = n" by simp
  have b: "16 \<le> n \<Longrightarrow> 16 + (n - 16) = n" by simp
  have c: "8 \<le> n \<Longrightarrow> 8 + (n - 8) = n" by simp
  consider "n < 8" | "8 \<le> n" "n < 16" | "16 \<le> n" "n < 24" | "24 \<le> n" "n < 32"
    using n by fastforce
  then show "bit (load_u32 (store_u32 w)) n = bit w n"
    by cases (auto simp add: load_u32_def store_u32_def bit_simps a b c)
qed

lemma length_encode_chunk:
  "length (encode_chunk c) = length (fst c) + 4 + length (snd c)"
  by (simp add: encode_chunk_def length_store_u32)

lemma unat_of_nat_u32: "n < 2 ^ 32 \<Longrightarrow> unat (of_nat n :: uint32_t) = n"
  by (simp add: unat_of_nat)

lemma chunk_at_encode:
  assumes "wf_chunk c"
  shows "chunk_at (pre @ encode_chunk c @ post) (length pre) =
           Some \<lparr>filename = fst c, chunk_size = of_nat (length (snd c)), data = snd c\<rparr>"
proof -
  have len: "length (fst c) = 64" and sz: "length (snd c) < 2 ^ 32"
    using assms by (simp_all add: wf_chunk_def)
  have u: "unat (of_nat (length (snd c)) :: uint32_t) = length (snd c)"
    using sz by (rule unat_of_nat_u32)
  have l: "load_u32 (take 4 (drop (length pre + 64) (pre @ encode_chunk c @ post))) =
             of_nat (length (snd c))"
    using len by (simp add: encode_chunk_def length_store_u32 load_store_u32)
  show ?thesis
    unfolding chunk_at_def sizeof_upload_chunk_def sizeof_of_str64_t_def Let_def l u
    using len by (simp add: encode_chunk_def length_store_u32)
qed

lemma c_string_append:
  "0 \<in> set xs \<Longrightarrow> c_string (xs @ ys) = c_string xs"
  by (simp add: c_string_def takeWhile_append1 [where x = 0])

lemma c_string_encode:
  assumes "wf_chunk c"
  shows "c_string (drop (length pre) (pre @ encode_chunk c @ post)) = c_string (fst c)"
proof -
  have "fst c ! 63 \<in> set (fst c)"
    using assms by (intro nth_mem) (simp add: wf_chunk_def)
  then have "0 \<in> set (fst c)"
    using assms by (simp add: wf_chunk_def)
  then show ?thesis
    by (simp add: encode_chunk_def c_string_append)
qed

lemma encode_chunks_Cons: "encode_chunks (c # cs) = encode_chunk c @ encode_chunks cs"
  by (simp add: encode_chunks_def)

lemma encode_chunks_Nil: "encode_chunks [] = []"
  by (simp add: encode_chunks_def)

lemma commit_loop_run_chunks:
  assumes "\<forall>c\<in>set cs. wf_chunk c"
    and "length (pre @ encode_chunks cs) < 2 ^ 32"
    and "upload_chunks s = pre @ encode_chunks cs"
  shows "commit_loop api cxn_id msg (of_nat (length pre)) s = run_chunks api cxn_id msg cs s"
  using assms
proof (induction cs arbitrary: pre s)
  case Nil
  then show ?case
    by (subst commit_loop.simps) (simp add: xbuf_length_def encode_chunks_Nil)
next
  case (Cons c cs)
  have wf: "wf_chunk c" using Cons.prems(1) by simp
  have buf: "upload_chunks s = pre @ encode_chunk c @ encode_chunks cs"
    using Cons.prems(3) by (simp add: encode_chunks_Cons)
  have len: "length (fst c) = 64" using wf by (simp add: wf_chunk_def)
  have total: "length pre + 68 + length (snd c) + length (encode_chunks cs) < 2 ^ 32"
    using Cons.prems(2) len by (simp add: encode_chunks_Cons length_encode_chunk)
  have off: "unat (of_nat (length pre) :: uint32_t) = length pre"
    using total by (simp add: unat_of_nat)
  have n: "length (upload_chunks s) =
      length pre + 68 + length (snd c) + length (encode_chunks cs)"
    using len by (simp add: buf length_encode_chunk)
  have "unat (xbuf_length (upload_chunks s)) = length (upload_chunks s)"
    unfolding xbuf_length_def using total n by (intro unat_of_nat_u32) simp
  then have lt: "(of_nat (length pre) :: uint32_t) < xbuf_length (upload_chunks s)"
    using n by (simp add: word_less_nat_alt off)
  have nxt: "(of_nat (length pre) :: uint32_t) + of_nat sizeof_upload_chunk
               + of_nat (length (snd c)) = of_nat (length (pre @ encode_chunk c))"
    using len by (simp add: sizeof_upload_chunk_def length_encode_chunk)
  have ih: "commit_loop api cxn_id msg (of_nat (length (pre @ encode_chunk c))) s' =
      run_chunks api cxn_id msg cs s'" if "upload_chunks s' = upload_chunks s" for s'
  proof -
    have "\<forall>c\<in>set cs. wf_chunk c" using Cons.prems(1) by simp
    moreover have "length ((pre @ encode_chunk c) @ encode_chunks cs) < 2 ^ 32"
      using Cons.prems(2) by (simp add: encode_chunks_Cons)
    moreover have "upload_chunks s' = (pre @ encode_chunk c) @ encode_chunks cs"
      using that buf by simp
    ultimately show ?thesis
      by (rule Cons.IH)
  qed
  have ca: "chunk_at (upload_chunks s) (length pre) =
      Some \<lparr>filename = fst c, chunk_size = of_nat (length (snd c)), data = snd c\<rparr>"
    unfolding buf using wf by (rule chunk_at_encode)
  have cs: "c_string (drop (length pre) (upload_chunks s)) = c_string (fst c)"
    unfolding buf using wf by (rule c_string_encode)
  show ?case
    apply (subst commit_loop.simps)
    apply (simp only: lt if_True off ca option.case cs upload_chunk.simps nxt Let_def)
    apply (simp add: Let_def ih split: prod.splits option.splits del: of_nat_add length_append)
    done
qed

subsection \<open>The shape of the trace of a commit\<close>

lemma run_chunks_trace:
  assumes "run_chunks api cxn_id msg cs s = Some s'"
  shows "upload_chunks s' = upload_chunks s \<and>
     (trace s' = trace s @ concat (map ok_events cs) \<or>
      (\<exists>pre c post t. cs = pre @ c # post \<and> fail_events cxn_id msg c t \<and>
         trace s' = trace s @ concat (map ok_events pre) @ t))"
  using assms
proof (induction cs arbitrary: s)
  case Nil
  then show ?case by simp
next
  case (Cons c cs)
  obtain rc L1 where ld:
    "luaL_loadbuffer api (lua s) (snd c) (of_nat (length (snd c))) (c_string (fst c)) = (rc, L1)"
    by fastforce
  show ?case
  proof (cases "rc = 0")
    case False
    then have s': "s' = s\<lparr>lua := L1, trace := trace s @
        load_fail_events cxn_id msg c rc (lua_tostring api L1 (- 1))\<rparr>"
      using Cons.prems ld
      by (simp add: Let_def load_fail_events_def chunk_log_def chunk_load_def error_reply_def)
    have "fail_events cxn_id msg c (load_fail_events cxn_id msg c rc (lua_tostring api L1 (- 1)))"
      using False unfolding fail_events_def by blast
    then have "\<exists>pre c' post t. c # cs = pre @ c' # post \<and> fail_events cxn_id msg c' t \<and>
         trace s' = trace s @ concat (map ok_events pre) @ t"
      unfolding s' by (intro exI [of _ "[]"] exI [of _ c] exI [of _ cs] exI conjI) simp_all
    then show ?thesis by (simp add: s')
  next
    case True
    let ?L3 = "lua_setfenv api (lua_getglobal api L1 ''sandbox'') (- 2)"
    from Cons.prems ld True obtain rc' L4 c4 where pc:
      "lua_pcall api ?L3 0 0 0 (ctx s) = Some (rc', L4, c4)"
      by (cases "lua_pcall api ?L3 0 0 0 (ctx s)") (auto simp add: Let_def)
    show ?thesis
    proof (cases "rc' = 0")
      case False
      then have s': "s' = s\<lparr>lua := L4, ctx := c4, trace := trace s @
          exec_fail_events cxn_id msg c rc' (lua_tostring api L4 (- 1))\<rparr>"
        using Cons.prems ld True pc
        by (simp add: Let_def exec_fail_events_def chunk_log_def chunk_load_def error_reply_def)
      have "fail_events cxn_id msg c
          (exec_fail_events cxn_id msg c rc' (lua_tostring api L4 (- 1)))"
        using False unfolding fail_events_def by blast
      then have "\<exists>pre c' post t. c # cs = pre @ c' # post \<and> fail_events cxn_id msg c' t \<and>
           trace s' = trace s @ concat (map ok_events pre) @ t"
        unfolding s' by (intro exI [of _ "[]"] exI [of _ c] exI [of _ cs] exI conjI) simp_all
      then show ?thesis by (simp add: s')
    next
      case rc0: True
      let ?s2 = "s\<lparr>lua := L4, ctx := c4, trace := trace s @ ok_events c\<rparr>"
      have run: "run_chunks api cxn_id msg cs ?s2 = Some s'"
        using Cons.prems ld True pc rc0
        by (simp add: Let_def ok_events_def chunk_log_def chunk_load_def)
      note ih = Cons.IH [OF run]
      from ih have buf: "upload_chunks s' = upload_chunks s" by simp
      from ih consider
        (ok) "trace s' = trace ?s2 @ concat (map ok_events cs)"
        | (fail) pre c' post t where "cs = pre @ c' # post" "fail_events cxn_id msg c' t"
            "trace s' = trace ?s2 @ concat (map ok_events pre) @ t"
        by blast
      then show ?thesis
      proof cases
        case ok
        then show ?thesis using buf by simp
      next
        case fail
        then have "c # cs = (c # pre) @ c' # post \<and> fail_events cxn_id msg c' t \<and>
           trace s' = trace s @ concat (map ok_events (c # pre)) @ t"
          by simp
        then show ?thesis using buf by blast
      qed
    qed
  qed
qed

lemma run_chunks_total:
  assumes "\<And>L c. lua_pcall api L 0 0 0 c \<noteq> None"
  shows "run_chunks api cxn_id msg cs s \<noteq> None"
proof (induction cs arbitrary: s)
  case Nil
  show ?case by simp
next
  case (Cons c cs)
  obtain rc L1 where ld:
    "luaL_loadbuffer api (lua s) (snd c) (of_nat (length (snd c))) (c_string (fst c)) = (rc, L1)"
    by fastforce
  let ?L3 = "lua_setfenv api (lua_getglobal api L1 ''sandbox'') (- 2)"
  obtain rc' L4 c4 where pc: "lua_pcall api ?L3 0 0 0 (ctx s) = Some (rc', L4, c4)"
    using assms [of ?L3 "ctx s"] by (cases "lua_pcall api ?L3 0 0 0 (ctx s)") auto
  show ?case
    using ld pc Cons.IH by (simp add: Let_def)
qed

lemma ok_events_not_failed: "e \<in> set (concat (map ok_events cs)) \<Longrightarrow> \<not> failed e"
  by (auto simp add: ok_events_def chunk_log_def chunk_load_def)

lemma ok_events_no_reply: "filter is_reply (concat (map ok_events cs)) = []"
  by (induction cs) (simp_all add: ok_events_def chunk_log_def chunk_load_def)

lemma loads_append: "loads (t @ u) = loads t @ loads u"
  by (induction t rule: loads.induct) simp_all

lemma loads_ok_events: "loads (concat (map ok_events cs)) = map chunk_code cs"
  by (induction cs)
    (simp_all add: loads_append ok_events_def chunk_log_def chunk_load_def chunk_code_def)

lemma fail_events_failed: "fail_events cxn_id msg c t \<Longrightarrow> \<exists>e\<in>set t. failed e"
  by (auto simp add: fail_events_def load_fail_events_def exec_fail_events_def chunk_load_def)

lemma fail_events_reply:
  "fail_events cxn_id msg c t \<Longrightarrow> filter is_reply t = [error_reply cxn_id msg]"
  by (auto simp add: fail_events_def load_fail_events_def exec_fail_events_def
      chunk_load_def chunk_log_def error_reply_def)

lemma fail_events_loads: "fail_events cxn_id msg c t \<Longrightarrow> loads t = [chunk_code c]"
  by (auto simp add: fail_events_def load_fail_events_def exec_fail_events_def
      chunk_load_def chunk_log_def error_reply_def chunk_code_def)

lemma fail_events_after:
  "fail_events cxn_id msg c t \<Longrightarrow> e \<in> set (after_failure t) \<Longrightarrow> \<not> is_lua_call e"
  by (auto simp add: fail_events_def load_fail_events_def exec_fail_events_def
      chunk_load_def chunk_log_def error_reply_def after_failure_def)

lemma after_failure_ok_events:
  "after_failure (concat (map ok_events cs) @ t) = after_failure t"
proof -
  have "dropWhile (\<lambda>e. \<not> failed e) (concat (map ok_events cs) @ t) =
      dropWhile (\<lambda>e. \<not> failed e) t"
    by (rule dropWhile_append2) (simp add: ok_events_not_failed)
  then show ?thesis by (simp add: after_failure_def)
qed

lemma after_failure_all_ok: "after_failure (concat (map ok_events cs)) = []"
  using after_failure_ok_events [of cs "[]"] by (simp add: after_failure_def)

lemma run_chunks_stop:
  assumes "run_chunks api cxn_id msg pre s = Some s'"
    and "\<exists>e\<in>set (emitted s s'). failed e"
  shows "run_chunks api cxn_id msg (pre @ post) s = Some s'"
  using assms
proof (induction pre arbitrary: s)
  case Nil
  then show ?case by (simp add: emitted_def)
next
  case (Cons c cs)
  obtain rc L1 where ld:
    "luaL_loadbuffer api (lua s) (snd c) (of_nat (length (snd c))) (c_string (fst c)) = (rc, L1)"
    by fastforce
  show ?case
  proof (cases "rc = 0")
    case False
    then show ?thesis using Cons.prems(1) ld by (simp add: Let_def)
  next
    case True
    let ?L3 = "lua_setfenv api (lua_getglobal api L1 ''sandbox'') (- 2)"
    from Cons.prems(1) ld True obtain rc' L4 c4 where pc:
      "lua_pcall api ?L3 0 0 0 (ctx s) = Some (rc', L4, c4)"
      by (cases "lua_pcall api ?L3 0 0 0 (ctx s)") (auto simp add: Let_def)
    show ?thesis
    proof (cases "rc' = 0")
      case False
      then show ?thesis using Cons.prems(1) ld True pc by (simp add: Let_def)
    next
      case rc0: True
      let ?s2 = "s\<lparr>lua := L4, ctx := c4, trace := trace s @ ok_events c\<rparr>"
      have run: "run_chunks api cxn_id msg cs ?s2 = Some s'"
        using Cons.prems(1) ld True pc rc0
        by (simp add: Let_def ok_events_def chunk_log_def chunk_load_def)
      obtain t where t: "trace s' = trace ?s2 @ t"
        using run_chunks_trace [OF run] by blast
      have "emitted s s' = ok_events c @ emitted ?s2 s'"
        using t by (simp add: emitted_def)
      moreover have "\<forall>e\<in>set (ok_events c). \<not> failed e"
        by (simp add: ok_events_def chunk_log_def chunk_load_def)
      ultimately have "\<exists>e\<in>set (emitted ?s2 s'). failed e"
        using Cons.prems(2) by auto
      from Cons.IH [OF run this]
      show ?thesis
        using ld True pc rc0
        by (simp add: Let_def ok_events_def chunk_log_def chunk_load_def)
    qed
  qed
qed

lemma memcpy_inside:
  "length a = dst \<Longrightarrow> length old = length src \<Longrightarrow> memcpy (a @ old @ z) dst src = a @ src @ z"
  by (simp add: memcpy_def)

lemma store_chunk_buffer:
  assumes "length fname = 64"
  shows "upload_chunks (store_chunk fill fname dat s) = upload_chunks s @ encode_chunk (fname, dat)"
proof -
  let ?b = "upload_chunks s"
  let ?sz = "store_u32 (of_nat (length dat))"
  have r: "xbuf_reserve ?b (sizeof_upload_chunk + length dat) fill =
      (length ?b, ?b @ replicate 64 fill @ replicate 4 fill @ replicate (length dat) fill)"
    by (simp add: xbuf_reserve_def sizeof_upload_chunk_def replicate_add [symmetric])
  have m1: "memcpy (?b @ replicate 64 fill @ replicate 4 fill @ replicate (length dat) fill)
      (length ?b + sizeof_of_str64_t) ?sz = ?b @ replicate 64 fill @ ?sz @ replicate (length dat) fill"
    using memcpy_inside [of "?b @ replicate 64 fill" "length ?b + 64" "replicate 4 fill" ?sz
        "replicate (length dat) fill"]
    by (simp add: sizeof_of_str64_t_def length_store_u32)
  have m2: "memcpy (?b @ replicate 64 fill @ ?sz @ replicate (length dat) fill)
      (length ?b) (take sizeof_of_str64_t fname) = ?b @ fname @ ?sz @ replicate (length dat) fill"
    using memcpy_inside [of ?b "length ?b" "replicate 64 fill" fname
        "?sz @ replicate (length dat) fill"] assms
    by (simp add: sizeof_of_str64_t_def)
  have m3: "memcpy (?b @ fname @ ?sz @ replicate (length dat) fill)
      (length ?b + sizeof_upload_chunk) dat = ?b @ fname @ ?sz @ dat"
    using memcpy_inside [of "?b @ fname @ ?sz" "length ?b + 68" "replicate (length dat) fill"
        dat "[]"] assms
    by (simp add: sizeof_upload_chunk_def length_store_u32)
  show ?thesis
    unfolding store_chunk_def r Let_def prod.case m1 m2 m3
    by (simp add: encode_chunk_def)
qed

lemma commit_lua_upload_run_chunks:
  assumes "\<forall>c\<in>set cs. wf_chunk c"
    and "length (encode_chunks cs) < 2 ^ 32"
    and "upload_chunks s = encode_chunks cs"
  shows "commit_lua_upload api cxn_id msg s =
           map_option cleanup_lua_upload (run_chunks api cxn_id msg cs s)"
  using commit_loop_run_chunks [of cs "[]" s api cxn_id msg] assms
  by (simp add: commit_lua_upload_def)

lemma run_chunks_other_buffer:
  assumes "lua t = lua s" "ctx t = ctx s" "trace t = trace s" "process_ref t = process_ref s"
  shows "run_chunks api cxn_id msg cs t =
     map_option (\<lambda>s'. s'\<lparr>upload_chunks := upload_chunks t\<rparr>) (run_chunks api cxn_id msg cs s)"
  using assms
proof (induction cs arbitrary: s t)
  case Nil
  then show ?case by simp
next
  case (Cons c cs)
  obtain rc L1 where ld:
    "luaL_loadbuffer api (lua s) (snd c) (of_nat (length (snd c))) (c_string (fst c)) = (rc, L1)"
    by fastforce
  let ?L3 = "lua_setfenv api (lua_getglobal api L1 ''sandbox'') (- 2)"
  show ?case
  proof (cases "lua_pcall api ?L3 0 0 0 (ctx s)")
    case None
    then show ?thesis using ld Cons.prems by (simp add: Let_def)
  next
    case (Some r)
    obtain rc' L4 c4 where r: "r = (rc', L4, c4)" by (cases r)
    let ?s2 = "s\<lparr>lua := L4, ctx := c4, trace := trace s @ ok_events c\<rparr>"
    let ?t2 = "t\<lparr>lua := L4, ctx := c4, trace := trace s @ ok_events c\<rparr>"
    have "run_chunks api cxn_id msg cs ?t2 =
       map_option (\<lambda>s'. s'\<lparr>upload_chunks := upload_chunks ?t2\<rparr>)
         (run_chunks api cxn_id msg cs ?s2)"
      using Cons.prems by (intro Cons.IH) simp_all
    then show ?thesis
      using ld Some r Cons.prems
      by (simp add: Let_def ok_events_def chunk_log_def chunk_load_def)
  qed
qed

lemma run_chunks_upload_chunks:
  "run_chunks api cxn_id msg cs (s\<lparr>upload_chunks := b\<rparr>) =
     map_option (\<lambda>s'. s'\<lparr>upload_chunks := b\<rparr>) (run_chunks api cxn_id msg cs s)"
  using run_chunks_other_buffer [of "s\<lparr>upload_chunks := b\<rparr>" s] by simp

lemma emitted_cleanup: "emitted s (cleanup_lua_upload s') = emitted s s'"
  by (simp add: emitted_def cleanup_lua_upload_def)

lemma commit_lua_upload_trace:
  assumes "\<forall>c\<in>set cs. wf_chunk c"
    and "length (encode_chunks cs) < 2 ^ 32"
    and "upload_chunks s = encode_chunks cs"
    and "commit_lua_upload api cxn_id msg s = Some s'"
  shows "emitted s s' = concat (map ok_events cs) \<or>
      (\<exists>pre c post t. cs = pre @ c # post \<and> fail_events cxn_id msg c t \<and>
         emitted s s' = concat (map ok_events pre) @ t)"
proof -
  from assms obtain s1 where run: "run_chunks api cxn_id msg cs s = Some s1"
    and s': "s' = cleanup_lua_upload s1"
    by (auto simp add: commit_lua_upload_run_chunks)
  have e: "emitted s s' = emitted s s1"
    by (simp add: s' emitted_cleanup)
  from run_chunks_trace [OF run] consider
    (ok) "trace s1 = trace s @ concat (map ok_events cs)"
    | (fail) pre c post t where "cs = pre @ c # post" "fail_events cxn_id msg c t"
        "trace s1 = trace s @ concat (map ok_events pre) @ t"
    by blast
  then show ?thesis
  proof cases
    case ok
    then have "emitted s s1 = concat (map ok_events cs)"
      by (simp add: emitted_def)
    then show ?thesis unfolding e by (rule disjI1)
  next
    case fail
    from fail(3) have "emitted s s1 = concat (map ok_events pre) @ t"
      by (simp add: emitted_def)
    with fail(1,2) show ?thesis unfolding e by blast
  qed
qed

lemma run_chunks_append_ok:
  assumes "run_chunks api cxn_id msg pre s = Some s1"
    and "\<forall>e\<in>set (emitted s s1). \<not> failed e"
  shows "run_chunks api cxn_id msg (pre @ rest) s = run_chunks api cxn_id msg rest s1"
  using assms
proof (induction pre arbitrary: s)
  case Nil
  then show ?case by simp
next
  case (Cons c cs)
  obtain rc L1 where ld:
    "luaL_loadbuffer api (lua s) (snd c) (of_nat (length (snd c))) (c_string (fst c)) = (rc, L1)"
    by fastforce
  have rc: "rc = 0"
  proof (rule ccontr)
    assume "rc \<noteq> 0"
    then have "emitted s s1 = load_fail_events cxn_id msg c rc (lua_tostring api L1 (- 1))"
      using Cons.prems(1) ld
      by (auto simp add: Let_def emitted_def load_fail_events_def chunk_log_def chunk_load_def
          error_reply_def)
    then show False
      using Cons.prems(2) \<open>rc \<noteq> 0\<close> by (simp add: load_fail_events_def chunk_load_def)
  qed
  let ?L3 = "lua_setfenv api (lua_getglobal api L1 ''sandbox'') (- 2)"
  from Cons.prems(1) ld rc obtain rc' L4 c4 where pc:
    "lua_pcall api ?L3 0 0 0 (ctx s) = Some (rc', L4, c4)"
    by (cases "lua_pcall api ?L3 0 0 0 (ctx s)") (auto simp add: Let_def)
  have rc': "rc' = 0"
  proof (rule ccontr)
    assume "rc' \<noteq> 0"
    then have "emitted s s1 = exec_fail_events cxn_id msg c rc' (lua_tostring api L4 (- 1))"
      using Cons.prems(1) ld rc pc
      by (auto simp add: Let_def emitted_def exec_fail_events_def chunk_log_def chunk_load_def
          error_reply_def)
    then show False
      using Cons.prems(2) \<open>rc' \<noteq> 0\<close> by (simp add: exec_fail_events_def chunk_load_def)
  qed
  let ?s2 = "s\<lparr>lua := L4, ctx := c4, trace := trace s @ ok_events c\<rparr>"
  have run: "run_chunks api cxn_id msg cs ?s2 = Some s1"
    using Cons.prems(1) ld rc pc rc'
    by (simp add: Let_def ok_events_def chunk_log_def chunk_load_def)
  obtain t where t: "trace s1 = trace ?s2 @ t"
    using run_chunks_trace [OF run] by blast
  have "emitted s s1 = ok_events c @ emitted ?s2 s1"
    using t by (simp add: emitted_def)
  then have "\<forall>e\<in>set (emitted ?s2 s1). \<not> failed e"
    using Cons.prems(2) by simp
  from Cons.IH [OF run this] show ?case
    using ld rc pc rc' by (simp add: Let_def ok_events_def chunk_log_def chunk_load_def)
qed

lemma run_chunks_never_compiles:
  assumes "\<And>L x. lua_pcall api L 0 0 0 x \<noteq> None"
    and "c \<in> set cs"
    and "\<And>L. fst (luaL_loadbuffer api L (snd c) (of_nat (length (snd c))) (c_string (fst c))) \<noteq> 0"
  shows "\<exists>s'. run_chunks api cxn_id msg cs s = Some s' \<and> (\<exists>e\<in>set (emitted s s'). failed e)"
  using assms(2)
proof (induction cs arbitrary: s)
  case Nil
  then show ?case by simp
next
  case (Cons d cs)
  obtain rc L1 where ld:
    "luaL_loadbuffer api (lua s) (snd d) (of_nat (length (snd d))) (c_string (fst d)) = (rc, L1)"
    by fastforce
  show ?case
  proof (cases "rc = 0")
    case False
    then have "run_chunks api cxn_id msg (d # cs) s =
        Some (s\<lparr>lua := L1, trace := trace s @
          load_fail_events cxn_id msg d rc (lua_tostring api L1 (- 1))\<rparr>)"
      using ld by (simp add: Let_def load_fail_events_def chunk_log_def chunk_load_def
          error_reply_def)
    then show ?thesis
      using False by (simp add: emitted_def load_fail_events_def chunk_load_def)
  next
    case True
    then have "c \<noteq> d" using assms(3) [of "lua s"] ld by auto
    then have mem: "c \<in> set cs" using Cons.prems by simp
    let ?L3 = "lua_setfenv api (lua_getglobal api L1 ''sandbox'') (- 2)"
    obtain rc' L4 c4 where pc: "lua_pcall api ?L3 0 0 0 (ctx s) = Some (rc', L4, c4)"
      using assms(1) [of ?L3 "ctx s"] by (cases "lua_pcall api ?L3 0 0 0 (ctx s)") auto
    show ?thesis
    proof (cases "rc' = 0")
      case False
      then have "run_chunks api cxn_id msg (d # cs) s =
          Some (s\<lparr>lua := L4, ctx := c4, trace := trace s @
            exec_fail_events cxn_id msg d rc' (lua_tostring api L4 (- 1))\<rparr>)"
        using ld True pc by (simp add: Let_def exec_fail_events_def chunk_log_def chunk_load_def
            error_reply_def)
      then show ?thesis
        using False by (simp add: emitted_def exec_fail_events_def chunk_load_def)
    next
      case rc0: True
      let ?s2 = "s\<lparr>lua := L4, ctx := c4, trace := trace s @ ok_events d\<rparr>"
      from Cons.IH [OF mem, of ?s2] obtain s' where run: "run_chunks api cxn_id msg cs ?s2 = Some s'"
        and f: "\<exists>e\<in>set (emitted ?s2 s'). failed e"
        by blast
      obtain t where t: "trace s' = trace ?s2 @ t"
        using run_chunks_trace [OF run] by blast
      have "emitted s s' = ok_events d @ emitted ?s2 s'"
        using t by (simp add: emitted_def)
      then have "\<exists>e\<in>set (emitted s s'). failed e"
        using f by auto
      moreover have "run_chunks api cxn_id msg (d # cs) s = Some s'"
        using run ld True pc rc0 by (simp add: Let_def ok_events_def chunk_log_def chunk_load_def)
      ultimately show ?thesis by blast
    qed
  qed
qed

lemma commit_lua_upload_returns:
  assumes "\<forall>c\<in>set cs. wf_chunk c"
    and "length (encode_chunks cs) < 2 ^ 32"
    and "upload_chunks s = encode_chunks cs"
    and "\<And>L x. lua_pcall api L 0 0 0 x \<noteq> None"
  shows "\<exists>s'. commit_lua_upload api cxn_id msg s = Some s'"
proof -
  have "run_chunks api cxn_id msg cs s \<noteq> None"
    using assms(4) by (rule run_chunks_total)
  then show ?thesis
    using commit_lua_upload_run_chunks [OF assms(1-3), of api cxn_id msg] by auto
qed

lemma replies_of_shape:
  assumes "t = concat (map ok_events cs) \<or>
      (\<exists>pre c post u. cs = pre @ c # post \<and> fail_events cxn_id msg c u \<and>
         t = concat (map ok_events pre) @ u)"
  shows "filter is_reply t =
     (if \<exists>e\<in>set t. failed e
      then [Send_error_reply cxn_id msg OF_ERROR_TYPE_BAD_REQUEST OF_REQUEST_FAILED_EPERM]
      else [])"
proof -
  from assms consider
    (ok) "t = concat (map ok_events cs)"
    | (fail) pre c u where "fail_events cxn_id msg c u" "t = concat (map ok_events pre) @ u"
    by blast
  then show ?thesis
  proof cases
    case ok
    then show ?thesis
      using ok_events_not_failed [of _ cs] by (auto simp add: ok_events_no_reply)
  next
    case fail
    from fail(1) have "\<exists>e\<in>set t. failed e"
      unfolding fail(2) using fail_events_failed by fastforce
    moreover have "filter is_reply t = [error_reply cxn_id msg]"
      unfolding fail(2) using fail(1) by (simp add: ok_events_no_reply fail_events_reply)
    ultimately show ?thesis by (simp add: error_reply_def)
  qed
qed

lemma commit_lua_upload_empty:
  "upload_chunks s = [] \<Longrightarrow> commit_lua_upload api cxn_id msg s = Some s"
proof -
  assume e: "upload_chunks s = []"
  then have "commit_loop api cxn_id msg 0 s = Some s"
    by (subst commit_loop.simps) (simp add: xbuf_length_def)
  then show ?thesis
    using e by (simp add: commit_lua_upload_def cleanup_lua_upload_def xbuf_reset_def)
qed

lemma commit_lua_upload_after_prefix:
  assumes wf: "\<forall>c\<in>set (pre @ rest). wf_chunk c"
    and len: "length (encode_chunks (pre @ rest)) < 2 ^ 32"
    and buf: "upload_chunks s = encode_chunks (pre @ rest)"
    and pre: "commit_lua_upload api cxn_id msg (s\<lparr>upload_chunks := encode_chunks pre\<rparr>) = Some sp"
    and ok: "\<forall>e\<in>set (emitted s sp). \<not> failed e"
  shows "commit_lua_upload api cxn_id msg s =
           map_option cleanup_lua_upload (run_chunks api cxn_id msg rest sp)"
proof -
  let ?P = "s\<lparr>upload_chunks := encode_chunks pre\<rparr>"
  have wfp: "\<forall>c\<in>set pre. wf_chunk c" using wf by simp
  have "encode_chunks (pre @ rest) = encode_chunks pre @ encode_chunks rest"
    by (simp add: encode_chunks_def)
  then have lenp: "length (encode_chunks pre) < 2 ^ 32" using len by simp
  have "commit_lua_upload api cxn_id msg ?P =
      map_option cleanup_lua_upload (run_chunks api cxn_id msg pre ?P)"
    using wfp lenp by (rule commit_lua_upload_run_chunks) simp
  then have "map_option cleanup_lua_upload
      (map_option (\<lambda>s'. s'\<lparr>upload_chunks := encode_chunks pre\<rparr>)
         (run_chunks api cxn_id msg pre s)) = Some sp"
    using pre by (simp add: run_chunks_upload_chunks)
  then obtain s0 where run: "run_chunks api cxn_id msg pre s = Some s0"
    and sp: "sp = cleanup_lua_upload (s0\<lparr>upload_chunks := encode_chunks pre\<rparr>)"
    by (cases "run_chunks api cxn_id msg pre s") auto
  have e: "emitted s sp = emitted s s0"
    by (simp add: sp emitted_def cleanup_lua_upload_def)
  have "run_chunks api cxn_id msg (pre @ rest) s = run_chunks api cxn_id msg rest s0"
    using run ok unfolding e by (rule run_chunks_append_ok)
  also have "\<dots> = map_option (\<lambda>s'. s'\<lparr>upload_chunks := upload_chunks s0\<rparr>)
      (run_chunks api cxn_id msg rest sp)"
    by (rule run_chunks_other_buffer) (simp_all add: sp cleanup_lua_upload_def)
  finally have "map_option cleanup_lua_upload (run_chunks api cxn_id msg (pre @ rest) s) =
      map_option cleanup_lua_upload (run_chunks api cxn_id msg rest sp)"
    by (cases "run_chunks api cxn_id msg rest sp")
      (simp_all add: cleanup_lua_upload_def xbuf_reset_def)
  then show ?thesis
    using commit_lua_upload_run_chunks [OF wf len buf, of api cxn_id msg] by simp
qed

lemma run_chunks_load_fails:
  assumes "luaL_loadbuffer api (lua s) (snd c) (of_nat (length (snd c))) (c_string (fst c)) = (rc, L1)"
    and "rc \<noteq> 0"
  shows "run_chunks api cxn_id msg (c # cs) s =
     Some (s\<lparr>lua := L1,
       trace := trace s @ load_fail_events cxn_id msg c rc (lua_tostring api L1 (- 1))\<rparr>)"
  using assms
  by (simp add: Let_def load_fail_events_def chunk_log_def chunk_load_def error_reply_def)

lemma run_chunks_call_fails:
  assumes "luaL_loadbuffer api (lua s) (snd c) (of_nat (length (snd c))) (c_string (fst c)) = (0, L1)"
    and "lua_pcall api (lua_setfenv api (lua_getglobal api L1 ''sandbox'') (- 2)) 0 0 0 (ctx s) =
           Some (rc, L4, x4)"
    and "rc \<noteq> 0"
  shows "run_chunks api cxn_id msg (c # cs) s =
     Some (s\<lparr>lua := L4, ctx := x4,
       trace := trace s @ exec_fail_events cxn_id msg c rc (lua_tostring api L4 (- 1))\<rparr>)"
  using assms
  by (simp add: Let_def exec_fail_events_def chunk_log_def chunk_load_def error_reply_def)

lemma upload_chunks_after_commit:
  "commit_lua_upload api cxn_id msg s = Some s' \<Longrightarrow> upload_chunks s' = []"
  by (auto simp add: commit_lua_upload_def cleanup_lua_upload_def xbuf_reset_def)

lemma commit_lua_upload_extends:
  assumes "\<forall>c\<in>set cs. wf_chunk c"
    and "length (encode_chunks cs) < 2 ^ 32"
    and "upload_chunks s = encode_chunks cs"
    and "commit_lua_upload api cxn_id msg s = Some s'"
  shows "trace s' = trace s @ emitted s s'"
proof -
  from assms obtain s1 where run: "run_chunks api cxn_id msg cs s = Some s1"
    and s': "s' = cleanup_lua_upload s1"
    by (auto simp add: commit_lua_upload_run_chunks)
  obtain t where "trace s1 = trace s @ t"
    using run_chunks_trace [OF run] by blast
  then show ?thesis
    by (simp add: s' emitted_def cleanup_lua_upload_def)
qed

lemma toy_pcall_total: "lua_pcall (toy_lua valid faulty) L 0 0 0 c \<noteq> None"
  by (simp add: toy_lua_def split: list.splits)

lemma wf_name_a_lua: "wf_chunk (name_a_lua, bytes_of code) \<longleftrightarrow> length code < 2 ^ 32"
  by (simp add: wf_chunk_def name_a_lua_def bytes_of_def nth_append)

subsection \<open>Storing a chunk\<close>

lemma store_chunk_eq:
  assumes "length fname = 64" and "fname ! 63 = 0"
  shows "store_chunk fill fname dat s =
     s\<lparr>upload_chunks := upload_chunks s @ encode_chunk (fname, dat),
       trace := trace s @
         [AIM_LOG VERBOSE ''Uploaded Lua chunk %s, %u bytes''
            [CStr (c_string fname), U32 (of_nat (length dat))]]\<rparr>"
proof -
  have wf: "0 \<in> set fname"
    using assms nth_mem [of 63 fname] by simp
  have b: "upload_chunks (store_chunk fill fname dat s) =
      upload_chunks s @ encode_chunk (fname, dat)"
    using assms(1) by (rule store_chunk_buffer)
  have "c_string (drop (length (upload_chunks s)) (upload_chunks s @ encode_chunk (fname, dat))) =
      c_string fname"
    using wf by (simp add: encode_chunk_def c_string_append)
  then show ?thesis
    using b by (simp add: store_chunk_def xbuf_reserve_def Let_def)
qed

lemma terminated_filename:
  assumes "length fname = 64"
  shows "length (fname[63 := 0]) = 64" and "fname[63 := 0] ! 63 = (0 :: byte)"
    and "length (c_string (fname[63 := 0])) \<le> 63"
proof -
  let ?f = "fname[63 := 0]"
  show l: "length ?f = 64" using assms by simp
  show z: "?f ! 63 = 0" using assms by simp
  have "c_string ?f \<noteq> ?f"
  proof
    assume "c_string ?f = ?f"
    then have "\<forall>b\<in>set ?f. b \<noteq> 0"
      by (simp add: c_string_def takeWhile_eq_all_conv)
    moreover have "?f ! 63 \<in> set ?f" using l by (intro nth_mem) simp
    ultimately show False using z by metis
  qed
  then have "length (c_string ?f) \<noteq> length ?f"
    unfolding c_string_def using takeWhile_eq_take [of "\<lambda>b. b \<noteq> 0" ?f] by auto
  moreover have "length (c_string ?f) \<le> length ?f"
    unfolding c_string_def by (rule length_takeWhile_le)
  ultimately show "length (c_string ?f) \<le> 63" using l by simp
qed

lemma handle_lua_upload_pending:
  assumes "length (bsn_lua_upload_filename msg) = 64"
    and "length (bsn_lua_upload_data msg) < 2 ^ 32"
    and "\<forall>c\<in>set cs. wf_chunk c"
    and "upload_chunks s = encode_chunks cs"
    and "handle_lua_upload api fill cxn_id msg s = Some s'"
  shows "\<exists>cs'. (\<forall>c\<in>set cs'. wf_chunk c) \<and> upload_chunks s' = encode_chunks cs'"
proof -
  let ?f = "(bsn_lua_upload_filename msg)[63 := 0]"
  let ?d = "bsn_lua_upload_data msg"
  let ?s1 = "if length ?d > 0 then store_chunk fill ?f ?d s else s"
  show ?thesis
  proof (cases "bsn_lua_upload_flags msg AND OFP_BSN_LUA_UPLOAD_MORE = 0")
    case True
    then have "commit_lua_upload api cxn_id msg ?s1 = Some s'"
      using assms(5) by (simp add: handle_lua_upload_def Let_def)
    then have "upload_chunks s' = encode_chunks []"
      by (auto simp add: commit_lua_upload_def cleanup_lua_upload_def xbuf_reset_def
          encode_chunks_def)
    then show ?thesis by (intro exI [of _ "[]"]) simp
  next
    case False
    then have s': "s' = ?s1"
      using assms(5) by (simp add: handle_lua_upload_def Let_def)
    show ?thesis
    proof (cases "?d = []")
      case True
      then show ?thesis using assms(3,4) s' by auto
    next
      case False
      have "wf_chunk (?f, ?d)"
        using assms(1,2) by (simp add: wf_chunk_def)
      moreover have "upload_chunks s' = encode_chunks (cs @ [(?f, ?d)])"
        using False assms(1,4) s' by (simp add: store_chunk_buffer encode_chunks_def)
      ultimately show ?thesis
        using assms(3) by (intro exI [of _ "cs @ [(?f, ?d)]"]) simp
    qed
  qed
qed

lemma pending_wf_init: "upload_chunks s = xbuf_init \<Longrightarrow> pending_wf s"
  unfolding pending_wf_def by (intro exI [of _ "[]"]) (simp add: xbuf_init_def encode_chunks_def)

lemma upload_session_pending:
  assumes "\<forall>msg\<in>set msgs. length (bsn_lua_upload_filename msg) = 64 \<and>
             length (bsn_lua_upload_data msg) < 2 ^ 32"
    and "pending_wf s"
    and "upload_session api fill cxn_id msgs s = Some s'"
  shows "pending_wf s'"
  using assms
proof (induction msgs arbitrary: s)
  case Nil
  then show ?case by simp
next
  case (Cons msg msgs)
  from Cons.prems(3) obtain s1 where h: "handle_lua_upload api fill cxn_id msg s = Some s1"
    and r: "upload_session api fill cxn_id msgs s1 = Some s'"
    by (auto split: option.splits)
  from Cons.prems(2) obtain cs where cs: "\<forall>c\<in>set cs. wf_chunk c" "upload_chunks s = encode_chunks cs"
    by (auto simp add: pending_wf_def list_all_iff)
  have "length (bsn_lua_upload_filename msg) = 64" "length (bsn_lua_upload_data msg) < 2 ^ 32"
    using Cons.prems(1) by simp_all
  from handle_lua_upload_pending [OF this cs h] have "pending_wf s1"
    by (auto simp add: pending_wf_def list_all_iff)
  with Cons.IH [OF _ _ r] Cons.prems(1) show ?case by simp
qed

subsection \<open>The sandbox is bound before a chunk is called\<close>

lemma sandbox_bound_ok_events:
  "sandbox_bound (filter is_lua_call (concat (map ok_events cs) @ t)) =
     sandbox_bound (filter is_lua_call t)"
  by (induction cs) (simp_all add: ok_events_def chunk_log_def chunk_load_def)

lemma sandbox_bound_fail_events:
  "fail_events cxn_id msg c t \<Longrightarrow> sandbox_bound (filter is_lua_call t)"
  by (auto simp add: fail_events_def load_fail_events_def exec_fail_events_def
      chunk_log_def chunk_load_def error_reply_def)

lemma commit_binds_sandbox_before_call:
  assumes "\<forall>c\<in>set cs. wf_chunk c"
    and "length (encode_chunks cs) < 2 ^ 32"
    and "upload_chunks s = encode_chunks cs"
    and "commit_lua_upload api cxn_id msg s = Some s'"
  shows "sandbox_bound (filter is_lua_call (emitted s s'))"
proof -
  from commit_lua_upload_trace [OF assms] consider
    (ok) "emitted s s' = concat (map ok_events cs) @ []"
    | (fail) pre c t where "fail_events cxn_id msg c t"
        "emitted s s' = concat (map ok_events pre) @ t"
    by auto
  then show ?thesis
  proof cases
    case ok
    show ?thesis unfolding ok sandbox_bound_ok_events by simp
  next
    case fail
    show ?thesis unfolding fail(2) sandbox_bound_ok_events
      using fail(1) by (rule sandbox_bound_fail_events)
  qed
qed

subsection \<open>Running the stand-in\<close>

lemma toy_pending_wf:
  "\<forall>c\<in>set (map (\<lambda>code. (name_a_lua, bytes_of code)) [''x'', ''y'']). wf_chunk c"
  "\<forall>c\<in>set (map (\<lambda>code. (name_a_lua, bytes_of code)) [''x'']). wf_chunk c"
  by (simp_all add: wf_name_a_lua)

lemma toy_pending_length:
  "length (encode_chunks (map (\<lambda>code. (name_a_lua, bytes_of code)) [''x'', ''y''])) < 2 ^ 32"
  "length (encode_chunks (map (\<lambda>code. (name_a_lua, bytes_of code)) [''x''])) < 2 ^ 32"
  by (simp_all add: encode_chunks_def encode_chunk_def length_store_u32 name_a_lua_def bytes_of_def)

lemma toy_commit_x:
  "commit_lua_upload (toy_lua [] []) 7 (upload_msg '''' 0) (toy_pending [''x'']) =
     Some toy_load_failed"
proof -
  have "commit_lua_upload (toy_lua [] []) 7 (upload_msg '''' 0) (toy_pending [''x'']) =
      map_option cleanup_lua_upload
        (run_chunks (toy_lua [] []) 7 (upload_msg '''' 0)
           (map (\<lambda>code. (name_a_lua, bytes_of code)) [''x'']) (toy_pending [''x'']))"
    using toy_pending_wf(2) toy_pending_length(2)
    by (rule commit_lua_upload_run_chunks) (simp add: toy_pending_def)
  then show ?thesis
    by (simp add: toy_lua_def toy_pending_def toy_state_def toy_load_failed_def Let_def
        cleanup_lua_upload_def xbuf_reset_def xbuf_init_def load_fail_events_def
        chunk_log_def chunk_load_def error_reply_def)
qed

lemma toy_load_failed_emitted:
  "emitted (toy_pending [''x'']) toy_load_failed =
     load_fail_events 7 (upload_msg '''' 0) (name_a_lua, bytes_of ''x'') 3 ''message''"
  by (simp add: emitted_def toy_pending_def toy_state_def toy_load_failed_def)

lemma name_a_lua_terminated: "name_a_lua[63 := 0] = name_a_lua"
proof -
  have "name_a_lua ! 63 = 0"
    by (simp add: name_a_lua_def bytes_of_def nth_append)
  then show ?thesis
    using list_update_id [of name_a_lua 63] by simp
qed

lemma length_name_a_lua: "length name_a_lua = 64"
  by (simp add: name_a_lua_def bytes_of_def)

lemma c_string_name_a_lua: "c_string name_a_lua = bytes_of ''a.lua''"
  by (simp add: c_string_def name_a_lua_def bytes_of_def)

subsection \<open>Per-packet processing never fails\<close>

text \<open>
  C1. Whatever status the call of the script's entry point returns, zero or not,
  \<^verbatim>\<open>pipeline_lua_process\<close> returns \<^verbatim>\<open>INDIGO_ERROR_NONE\<close>, for every key; a status
  other than zero is logged as an error and goes no further.
\<close>

theorem pipeline_lua_process_success:
  assumes "lua_pcall api (lua_rawgeti api (lua s) LUA_REGISTRYINDEX (process_ref s)) 0 0 0
             \<lparr>stats = st, actx = ac,
              fields' = pipeline_lua_fields_from_key api key (fields' (ctx s))\<rparr> =
           Some (rc, L, c)"
  shows "\<exists>s'. pipeline_lua_process api key st ac s = Some (INDIGO_ERROR_NONE, s') \<and>
           (rc \<noteq> 0 \<longrightarrow>
              AIM_LOG ERROR ''Failed to execute script: %s'' [Str (lua_tostring api L (- 1))]
                \<in> set (emitted s s'))"
  using assms by (simp add: pipeline_lua_process_def emitted_def)

theorem pipeline_lua_process_success_witness:
  "lua_pcall (toy_lua [] [bytes_of ''process''])
     (lua_rawgeti (toy_lua [] [bytes_of ''process'']) (lua toy_state) LUA_REGISTRYINDEX
        (process_ref toy_state)) 0 0 0
     \<lparr>stats = (), actx = (),
      fields' = pipeline_lua_fields_from_key (toy_lua [] [bytes_of ''process'']) ()
        (fields' (ctx toy_state))\<rparr> =
     Some (2, [bytes_of ''fault''], \<lparr>stats = (), actx = (), fields' = ()\<rparr>) \<and>
   (\<exists>s'. pipeline_lua_process (toy_lua [] [bytes_of ''process'']) () () () toy_state =
           Some (INDIGO_ERROR_NONE, s') \<and>
         AIM_LOG ERROR ''Failed to execute script: %s'' [Str ''message''] \<in> set (emitted toy_state s'))"
proof -
  have h: "lua_pcall (toy_lua [] [bytes_of ''process''])
     (lua_rawgeti (toy_lua [] [bytes_of ''process'']) (lua toy_state) LUA_REGISTRYINDEX
        (process_ref toy_state)) 0 0 0
     \<lparr>stats = (), actx = (),
      fields' = pipeline_lua_fields_from_key (toy_lua [] [bytes_of ''process'']) ()
        (fields' (ctx toy_state))\<rparr> =
     Some (2, [bytes_of ''fault''], \<lparr>stats = (), actx = (), fields' = ()\<rparr>)"
    by (simp add: toy_lua_def toy_state_def)
  show ?thesis
    using h pipeline_lua_process_success [OF h] by (simp add: toy_lua_def)
qed

subsection \<open>The message listener\<close>

text \<open>
  C7. The listener handles one object type. An object of any other type gives
  \<^verbatim>\<open>INDIGO_CORE_LISTENER_RESULT_PASS\<close> and the state is the one before: nothing is
  stored, logged or sent. An upload message goes to \<^verbatim>\<open>handle_lua_upload\<close>, and the
  three fields read from it decide what happens: the data and the file name, its last
  byte set to zero, are the chunk appended to the pending buffer (nothing is appended
  for empty data); the MORE bit of the flags decides between returning this state and
  committing it; in both cases the result is \<^verbatim>\<open>INDIGO_CORE_LISTENER_RESULT_DROP\<close>.
  The listener does return that result when the buffer holds stored chunks, stays below
  \<open>2 ^ 32\<close> bytes and no call of an uploaded chunk runs forever; after a commit the
  buffer is empty. The message is read through its accessors only; the zero byte is
  written to the handler's copy of the file name.
\<close>

theorem message_listener_dispatch:
  "(object_id msg = OF_BSN_LUA_UPLOAD \<longrightarrow>
      message_listener api fill cxn_id msg s =
        map_option (Pair INDIGO_CORE_LISTENER_RESULT_DROP)
          (handle_lua_upload api fill cxn_id msg s)) \<and>
   (object_id msg \<noteq> OF_BSN_LUA_UPLOAD \<longrightarrow>
      message_listener api fill cxn_id msg s = Some (INDIGO_CORE_LISTENER_RESULT_PASS, s)) \<and>
   (object_id msg = OF_BSN_LUA_UPLOAD \<and> length (bsn_lua_upload_filename msg) = 64 \<longrightarrow>
      (\<exists>s1. s1 =
            (if bsn_lua_upload_data msg = [] then s
             else s\<lparr>upload_chunks := upload_chunks s @
                      encode_chunk ((bsn_lua_upload_filename msg)[63 := 0], bsn_lua_upload_data msg),
                    trace := trace s @
                      [AIM_LOG VERBOSE ''Uploaded Lua chunk %s, %u bytes''
                         [CStr (c_string ((bsn_lua_upload_filename msg)[63 := 0])),
                          U32 (of_nat (length (bsn_lua_upload_data msg)))]]\<rparr>) \<and>
         message_listener api fill cxn_id msg s =
           (if bsn_lua_upload_flags msg AND OFP_BSN_LUA_UPLOAD_MORE = 0
            then map_option (Pair INDIGO_CORE_LISTENER_RESULT_DROP)
                   (commit_lua_upload api cxn_id msg s1)
            else Some (INDIGO_CORE_LISTENER_RESULT_DROP, s1)))) \<and>
   (object_id msg = OF_BSN_LUA_UPLOAD \<and> length (bsn_lua_upload_filename msg) = 64 \<and>
    (\<forall>c\<in>set cs. wf_chunk c) \<and> upload_chunks s = encode_chunks cs \<and>
    length (encode_chunks cs) + 68 + length (bsn_lua_upload_data msg) < 2 ^ 32 \<and>
    (\<forall>L x. lua_pcall api L 0 0 0 x \<noteq> None) \<longrightarrow>
      (\<exists>s'. message_listener api fill cxn_id msg s =
          Some (INDIGO_CORE_LISTENER_RESULT_DROP, s') \<and>
        (bsn_lua_upload_flags msg AND OFP_BSN_LUA_UPLOAD_MORE = 0 \<longrightarrow> upload_chunks s' = [])))"
proof -
  let ?f = "(bsn_lua_upload_filename msg)[63 := 0]"
  let ?d = "bsn_lua_upload_data msg"
  let ?s1 = "if ?d = [] then s
     else s\<lparr>upload_chunks := upload_chunks s @ encode_chunk (?f, ?d),
            trace := trace s @
              [AIM_LOG VERBOSE ''Uploaded Lua chunk %s, %u bytes''
                 [CStr (c_string ?f), U32 (of_nat (length ?d))]]\<rparr>"
  have one: "object_id msg = OF_BSN_LUA_UPLOAD \<longrightarrow>
      message_listener api fill cxn_id msg s =
        map_option (Pair INDIGO_CORE_LISTENER_RESULT_DROP)
          (handle_lua_upload api fill cxn_id msg s)"
    by (simp add: message_listener_def)
  have two: "object_id msg \<noteq> OF_BSN_LUA_UPLOAD \<longrightarrow>
      message_listener api fill cxn_id msg s = Some (INDIGO_CORE_LISTENER_RESULT_PASS, s)"
    by (cases "object_id msg") (simp_all add: message_listener_def)
  have h: "handle_lua_upload api fill cxn_id msg s =
      (if bsn_lua_upload_flags msg AND OFP_BSN_LUA_UPLOAD_MORE = 0
       then commit_lua_upload api cxn_id msg ?s1 else Some ?s1)"
    if l: "length (bsn_lua_upload_filename msg) = 64"
  proof -
    have "store_chunk fill ?f ?d s =
        s\<lparr>upload_chunks := upload_chunks s @ encode_chunk (?f, ?d),
          trace := trace s @
            [AIM_LOG VERBOSE ''Uploaded Lua chunk %s, %u bytes''
               [CStr (c_string ?f), U32 (of_nat (length ?d))]]\<rparr>"
      using terminated_filename(1,2) [OF l] by (rule store_chunk_eq)
    then show ?thesis
      by (simp add: handle_lua_upload_def Let_def)
  qed
  have three: "object_id msg = OF_BSN_LUA_UPLOAD \<and> length (bsn_lua_upload_filename msg) = 64 \<longrightarrow>
      (\<exists>s1. s1 = ?s1 \<and>
         message_listener api fill cxn_id msg s =
           (if bsn_lua_upload_flags msg AND OFP_BSN_LUA_UPLOAD_MORE = 0
            then map_option (Pair INDIGO_CORE_LISTENER_RESULT_DROP)
                   (commit_lua_upload api cxn_id msg s1)
            else Some (INDIGO_CORE_LISTENER_RESULT_DROP, s1)))"
    using h by (simp add: message_listener_def)
  have four: "\<exists>s'. message_listener api fill cxn_id msg s =
          Some (INDIGO_CORE_LISTENER_RESULT_DROP, s') \<and>
        (bsn_lua_upload_flags msg AND OFP_BSN_LUA_UPLOAD_MORE = 0 \<longrightarrow> upload_chunks s' = [])"
    if a: "object_id msg = OF_BSN_LUA_UPLOAD \<and> length (bsn_lua_upload_filename msg) = 64 \<and>
      (\<forall>c\<in>set cs. wf_chunk c) \<and> upload_chunks s = encode_chunks cs \<and>
      length (encode_chunks cs) + 68 + length ?d < 2 ^ 32 \<and>
      (\<forall>L x. lua_pcall api L 0 0 0 x \<noteq> None)"
  proof (cases "bsn_lua_upload_flags msg AND OFP_BSN_LUA_UPLOAD_MORE = 0")
    case False
    then show ?thesis using a h by (simp add: message_listener_def)
  next
    case True
    let ?cs1 = "if ?d = [] then cs else cs @ [(?f, ?d)]"
    have wf: "\<forall>c\<in>set ?cs1. wf_chunk c"
      using a by (simp add: wf_chunk_def)
    have buf: "upload_chunks ?s1 = encode_chunks ?cs1"
      using a by (simp add: encode_chunks_def)
    have len: "length (encode_chunks ?cs1) < 2 ^ 32"
      using a by (simp add: encode_chunks_def length_encode_chunk)
    have "\<exists>s'. commit_lua_upload api cxn_id msg ?s1 = Some s'"
      using wf len buf a by (intro commit_lua_upload_returns) auto
    then obtain s' where c: "commit_lua_upload api cxn_id msg ?s1 = Some s'"
      by blast
    then have "upload_chunks s' = []"
      by (rule upload_chunks_after_commit)
    then show ?thesis
      using True a h c by (simp add: message_listener_def)
  qed
  from one two three four show ?thesis by blast
qed

theorem message_listener_dispatch_witness:
  "message_listener (toy_lua [] []) 0 7 (upload_msg ''x'' 1) toy_state =
     Some (INDIGO_CORE_LISTENER_RESULT_DROP,
       toy_state\<lparr>upload_chunks := encode_chunk (name_a_lua, bytes_of ''x''),
         trace := [AIM_LOG VERBOSE ''Uploaded Lua chunk %s, %u bytes''
                     [CStr (bytes_of ''a.lua''), U32 1]]\<rparr>) \<and>
   (\<exists>s'. message_listener (toy_lua [] []) 0 7 (upload_msg ''x'' 0) toy_state =
      Some (INDIGO_CORE_LISTENER_RESULT_DROP, s') \<and> upload_chunks s' = []) \<and>
   message_listener (toy_lua [] []) 0 7 ((upload_msg ''x'' 1)\<lparr>object_id := OF_OBJECT_OTHER 5\<rparr>)
     toy_state = Some (INDIGO_CORE_LISTENER_RESULT_PASS, toy_state)"
proof -
  have one: "message_listener (toy_lua [] []) 0 7 (upload_msg ''x'' 1) toy_state =
     Some (INDIGO_CORE_LISTENER_RESULT_DROP,
       toy_state\<lparr>upload_chunks := encode_chunk (name_a_lua, bytes_of ''x''),
         trace := [AIM_LOG VERBOSE ''Uploaded Lua chunk %s, %u bytes''
                     [CStr (bytes_of ''a.lua''), U32 1]]\<rparr>)"
    using message_listener_dispatch [where msg = "upload_msg ''x'' 1" and api = "toy_lua [] []"
        and fill = 0 and cxn_id = 7 and s = toy_state, THEN conjunct2, THEN conjunct2, THEN conjunct1]
    by (simp add: upload_msg_def OFP_BSN_LUA_UPLOAD_MORE_def length_name_a_lua
        name_a_lua_terminated c_string_name_a_lua)
      (simp add: bytes_of_def toy_state_def xbuf_init_def)
  have wf: "\<forall>c\<in>set ([] :: (of_str64_t \<times> byte list) list). wf_chunk c"
    by simp
  have two: "\<exists>s'. message_listener (toy_lua [] []) 0 7 (upload_msg ''x'' 0) toy_state =
      Some (INDIGO_CORE_LISTENER_RESULT_DROP, s') \<and> upload_chunks s' = []"
    using message_listener_dispatch [where msg = "upload_msg ''x'' 0" and api = "toy_lua [] []"
        and fill = 0 and cxn_id = 7 and s = toy_state and cs = "[]",
        THEN conjunct2, THEN conjunct2, THEN conjunct2]
      toy_pcall_total [of "[]" "[]"]
    by (simp add: upload_msg_def OFP_BSN_LUA_UPLOAD_MORE_def length_name_a_lua
        encode_chunks_Nil toy_state_def xbuf_init_def bytes_of_def)
  have three: "message_listener (toy_lua [] []) 0 7
      ((upload_msg ''x'' 1)\<lparr>object_id := OF_OBJECT_OTHER 5\<rparr>) toy_state =
      Some (INDIGO_CORE_LISTENER_RESULT_PASS, toy_state)"
    using message_listener_dispatch [where msg = "(upload_msg ''x'' 1)\<lparr>object_id := OF_OBJECT_OTHER 5\<rparr>"
        and api = "toy_lua [] []" and fill = 0 and cxn_id = 7 and s = toy_state]
    by (simp add: upload_msg_def)
  from one two three show ?thesis by blast
qed

subsection \<open>Upload\<close>

text \<open>
  C8. Handling an upload message whose file name field has its 64 bytes first brings
  the state to \<open>s1\<close>, then commits \<open>s1\<close> when the MORE bit is clear and returns \<open>s1\<close>
  otherwise. The buffer of \<open>s1\<close> is the buffer before, followed by one chunk when the
  payload is not empty and by nothing when it is empty; so the buffer has grown if and
  only if the payload is not empty. The file name stored with the chunk is the
  message's with a zero written to its last byte: 64 bytes, zero-terminated, at most 63
  characters as a C string.
\<close>

theorem handle_lua_upload_appends:
  assumes "length (bsn_lua_upload_filename msg) = 64"
  shows "\<exists>s1. handle_lua_upload api fill cxn_id msg s =
            (if bsn_lua_upload_flags msg AND OFP_BSN_LUA_UPLOAD_MORE = 0
             then commit_lua_upload api cxn_id msg s1 else Some s1) \<and>
          upload_chunks s1 = upload_chunks s @
            (if bsn_lua_upload_data msg = [] then []
             else encode_chunk ((bsn_lua_upload_filename msg)[63 := 0], bsn_lua_upload_data msg)) \<and>
          (upload_chunks s1 \<noteq> upload_chunks s) = (bsn_lua_upload_data msg \<noteq> []) \<and>
          length ((bsn_lua_upload_filename msg)[63 := 0]) = 64 \<and>
          (bsn_lua_upload_filename msg)[63 := 0] ! 63 = 0 \<and>
          length (c_string ((bsn_lua_upload_filename msg)[63 := 0])) \<le> 63"
proof -
  let ?f = "(bsn_lua_upload_filename msg)[63 := 0]"
  let ?d = "bsn_lua_upload_data msg"
  let ?s1 = "if length ?d > 0 then store_chunk fill ?f ?d s else s"
  note t = terminated_filename [OF assms]
  have h: "handle_lua_upload api fill cxn_id msg s =
            (if bsn_lua_upload_flags msg AND OFP_BSN_LUA_UPLOAD_MORE = 0
             then commit_lua_upload api cxn_id msg ?s1 else Some ?s1)"
    by (simp add: handle_lua_upload_def Let_def)
  have b: "upload_chunks ?s1 = upload_chunks s @ (if ?d = [] then [] else encode_chunk (?f, ?d))"
    using t(1) by (simp add: store_chunk_buffer)
  have n: "(upload_chunks ?s1 \<noteq> upload_chunks s) = (?d \<noteq> [])"
    unfolding b using t(1) by (simp add: encode_chunk_def)
  show ?thesis
    using h b n t by blast
qed

theorem handle_lua_upload_appends_witness:
  "\<exists>s1. handle_lua_upload (toy_lua [] []) 0 7 (upload_msg ''x'' 1) toy_state = Some s1 \<and>
      upload_chunks s1 = encode_chunk (name_a_lua, bytes_of ''x'') \<and>
      length (c_string name_a_lua) \<le> 63"
proof -
  have l: "length (bsn_lua_upload_filename (upload_msg ''x'' 1)) = 64"
    by (simp add: upload_msg_def length_name_a_lua)
  from handle_lua_upload_appends [OF l, of "toy_lua [] []" 0 7 toy_state]
  show ?thesis
    by (simp add: upload_msg_def OFP_BSN_LUA_UPLOAD_MORE_def name_a_lua_terminated
        toy_state_def xbuf_init_def bytes_of_def) blast
qed

text \<open>
  C9. A message with the MORE bit clear and an empty payload stores nothing and commits
  the buffer as it stands, whatever it holds. A commit of an empty buffer returns the
  state unchanged: nothing is compiled, executed, logged or sent.
\<close>

theorem empty_terminal_upload_commits:
  "(bsn_lua_upload_flags msg AND OFP_BSN_LUA_UPLOAD_MORE = 0 \<and> bsn_lua_upload_data msg = [] \<longrightarrow>
      handle_lua_upload api fill cxn_id msg s = commit_lua_upload api cxn_id msg s) \<and>
   (upload_chunks s = [] \<longrightarrow> commit_lua_upload api cxn_id msg s = Some s)"
proof (intro conjI impI)
  assume "bsn_lua_upload_flags msg AND OFP_BSN_LUA_UPLOAD_MORE = 0 \<and> bsn_lua_upload_data msg = []"
  then show "handle_lua_upload api fill cxn_id msg s = commit_lua_upload api cxn_id msg s"
    by (simp add: handle_lua_upload_def)
next
  assume e: "upload_chunks s = []"
  then have "commit_loop api cxn_id msg 0 s = Some s"
    by (subst commit_loop.simps) (simp add: xbuf_length_def)
  then show "commit_lua_upload api cxn_id msg s = Some s"
    using e by (simp add: commit_lua_upload_def cleanup_lua_upload_def xbuf_reset_def)
qed

theorem empty_terminal_upload_commits_witness:
  "handle_lua_upload (toy_lua [] []) 0 7 (upload_msg '''' 0) (toy_pending [''x'']) =
     Some toy_load_failed \<and>
   commit_lua_upload (toy_lua [] []) 7 (upload_msg '''' 0) toy_state = Some toy_state"
  using empty_terminal_upload_commits [of "upload_msg '''' 0" "toy_lua [] []" 0 7
      "toy_pending [''x'']"]
    empty_terminal_upload_commits [of "upload_msg '''' 0" "toy_lua [] []" 0 7 toy_state]
    toy_commit_x
  by (simp add: upload_msg_def bytes_of_def toy_state_def xbuf_init_def)

text \<open>
  C10. The chunk that \<^verbatim>\<open>handle_lua_upload\<close> stores for a payload \<open>dat\<close> reads back, at
  the offset where the buffer ended, with the full 64-byte file name, with the payload
  and with a size field whose value is the length of the payload. Over a buffer of
  stored chunks \<open>cs\<close> the commit loop, which walks the bytes by adding the header size
  and the size field to its offset, computes what \<open>run_chunks\<close> computes by walking the
  list \<open>cs\<close> from its head: the offsets it reaches are the offsets of the chunks, none
  is read outside the buffer, and the commit returns when no call of a chunk runs
  forever. What it returns has one of two traces: every chunk of \<open>cs\<close> compiled and
  called, once and in arrival order; or the chunks before position \<open>k\<close> compiled and
  called, the chunk at \<open>k\<close> compiled and failed, and no chunk after it touched.
\<close>

theorem stored_chunks_visited_in_order:
  "(length fname = 64 \<and> length dat < 2 ^ 32 \<longrightarrow>
      chunk_at (upload_chunks (store_chunk fill (fname[63 := 0]) dat s0))
          (length (upload_chunks s0)) =
        Some \<lparr>filename = fname[63 := 0], chunk_size = of_nat (length dat), data = dat\<rparr> \<and>
      length (fname[63 := 0]) = 64 \<and> unat (of_nat (length dat) :: uint32_t) = length dat) \<and>
   ((\<forall>c\<in>set cs. wf_chunk c) \<and> length (encode_chunks cs) < 2 ^ 32 \<and>
    upload_chunks s = encode_chunks cs \<longrightarrow>
      commit_lua_upload api cxn_id msg s =
        map_option cleanup_lua_upload (run_chunks api cxn_id msg cs s) \<and>
      ((\<forall>L x. lua_pcall api L 0 0 0 x \<noteq> None) \<longrightarrow>
         (\<exists>s1. commit_lua_upload api cxn_id msg s = Some s1)) \<and>
      (commit_lua_upload api cxn_id msg s = Some s' \<longrightarrow>
         emitted s s' = concat (map ok_events cs) \<and>
         loads (emitted s s') = map chunk_code cs \<or>
         (\<exists>k<length cs. \<exists>t. fail_events cxn_id msg (cs ! k) t \<and>
            emitted s s' = concat (map ok_events (take k cs)) @ t \<and>
            loads (emitted s s') = map chunk_code (take (Suc k) cs))))"
proof (intro conjI impI)
  assume a: "length fname = 64 \<and> length dat < 2 ^ 32"
  let ?f = "fname[63 := 0]"
  have wf: "wf_chunk (?f, dat)"
    using a by (simp add: wf_chunk_def)
  have "upload_chunks (store_chunk fill ?f dat s0) = upload_chunks s0 @ encode_chunk (?f, dat) @ []"
    using a by (simp add: store_chunk_buffer)
  then show "chunk_at (upload_chunks (store_chunk fill ?f dat s0)) (length (upload_chunks s0)) =
      Some \<lparr>filename = ?f, chunk_size = of_nat (length dat), data = dat\<rparr>"
    using chunk_at_encode [OF wf, of "upload_chunks s0" "[]"] by simp
  show "length ?f = 64" using a by simp
  show "unat (of_nat (length dat) :: uint32_t) = length dat"
    using a by (simp add: unat_of_nat_u32)
next
  assume a: "(\<forall>c\<in>set cs. wf_chunk c) \<and> length (encode_chunks cs) < 2 ^ 32 \<and>
    upload_chunks s = encode_chunks cs"
  then show "commit_lua_upload api cxn_id msg s =
      map_option cleanup_lua_upload (run_chunks api cxn_id msg cs s)"
    using commit_lua_upload_run_chunks [of cs s api cxn_id msg] by simp
next
  assume a: "(\<forall>c\<in>set cs. wf_chunk c) \<and> length (encode_chunks cs) < 2 ^ 32 \<and>
    upload_chunks s = encode_chunks cs"
    and t: "\<forall>L x. lua_pcall api L 0 0 0 x \<noteq> None"
  have "lua_pcall api L 0 0 0 x \<noteq> None" for L x
    using t by blast
  with a show "\<exists>s1. commit_lua_upload api cxn_id msg s = Some s1"
    by (intro commit_lua_upload_returns [of cs]) auto
next
  assume a: "(\<forall>c\<in>set cs. wf_chunk c) \<and> length (encode_chunks cs) < 2 ^ 32 \<and>
    upload_chunks s = encode_chunks cs"
    and c: "commit_lua_upload api cxn_id msg s = Some s'"
  then have "emitted s s' = concat (map ok_events cs) \<or>
      (\<exists>pre c post t. cs = pre @ c # post \<and> fail_events cxn_id msg c t \<and>
         emitted s s' = concat (map ok_events pre) @ t)"
    using commit_lua_upload_trace [of cs s api cxn_id msg s'] by simp
  then consider
    (ok) "emitted s s' = concat (map ok_events cs)"
    | (fail) pre c post t where "cs = pre @ c # post" "fail_events cxn_id msg c t"
        "emitted s s' = concat (map ok_events pre) @ t"
    by blast
  then show "emitted s s' = concat (map ok_events cs) \<and>
         loads (emitted s s') = map chunk_code cs \<or>
         (\<exists>k<length cs. \<exists>t. fail_events cxn_id msg (cs ! k) t \<and>
            emitted s s' = concat (map ok_events (take k cs)) @ t \<and>
            loads (emitted s s') = map chunk_code (take (Suc k) cs))"
  proof cases
    case ok
    then show ?thesis by (simp add: loads_ok_events)
  next
    case fail
    let ?k = "length pre"
    have k: "?k < length cs" using fail(1) by simp
    have f: "fail_events cxn_id msg (cs ! ?k) t" using fail(1,2) by simp
    have e: "emitted s s' = concat (map ok_events (take ?k cs)) @ t" using fail(1,3) by simp
    have l: "loads (emitted s s') = map chunk_code (take (Suc ?k) cs)"
      unfolding fail(3) using fail(1,2)
      by (simp add: loads_append loads_ok_events fail_events_loads)
    show ?thesis
      using k f e l by (intro disjI2 exI [of _ ?k] exI [of _ t] conjI)
  qed
qed

theorem stored_chunks_visited_in_order_witness:
  "chunk_at (upload_chunks (store_chunk 0 (name_a_lua[63 := 0]) (bytes_of ''x'') toy_state)) 0 =
     Some \<lparr>filename = name_a_lua, chunk_size = 1, data = bytes_of ''x''\<rparr> \<and>
   (\<exists>s'. commit_lua_upload (toy_lua [bytes_of ''x'', bytes_of ''y''] []) 7 (upload_msg '''' 0)
        (toy_pending [''x'', ''y'']) = Some s' \<and>
      loads (emitted (toy_pending [''x'', ''y'']) s') =
        [(bytes_of ''x'', 1, bytes_of ''a.lua''), (bytes_of ''y'', 1, bytes_of ''a.lua'')])"
proof -
  let ?cs = "map (\<lambda>code. (name_a_lua, bytes_of code)) [''x'', ''y'']"
  let ?api = "toy_lua [bytes_of ''x'', bytes_of ''y''] []"
  have buf: "upload_chunks (toy_pending [''x'', ''y'']) = encode_chunks ?cs"
    by (simp add: toy_pending_def)
  have d: "length (bytes_of ''x'') < 2 ^ 32"
    by (simp add: bytes_of_def)
  note inst = stored_chunks_visited_in_order [where fname = name_a_lua and dat = "bytes_of ''x''"
      and fill = 0 and ?s0.0 = toy_state and cs = ?cs and s = "toy_pending [''x'', ''y'']"
      and api = ?api and cxn_id = 7 and msg = "upload_msg '''' 0"]
  have one: "chunk_at (upload_chunks (store_chunk 0 (name_a_lua[63 := 0]) (bytes_of ''x'') toy_state)) 0 =
     Some \<lparr>filename = name_a_lua, chunk_size = 1, data = bytes_of ''x''\<rparr>"
    using inst [THEN conjunct1] d length_name_a_lua
    by (simp add: name_a_lua_terminated toy_state_def xbuf_init_def bytes_of_def)
  have run: "commit_lua_upload ?api 7 (upload_msg '''' 0) (toy_pending [''x'', ''y'']) =
      map_option cleanup_lua_upload
        (run_chunks ?api 7 (upload_msg '''' 0) ?cs (toy_pending [''x'', ''y'']))"
    using inst [THEN conjunct2] toy_pending_wf(1) toy_pending_length(1) buf by blast
  have "run_chunks ?api 7 (upload_msg '''' 0) ?cs (toy_pending [''x'', ''y'']) =
      Some ((toy_pending [''x'', ''y''])\<lparr>trace := concat (map ok_events ?cs)\<rparr>)"
    by (simp add: toy_lua_def toy_pending_def toy_state_def Let_def ok_events_def chunk_log_def
        chunk_load_def bytes_of_def)
  then have "commit_lua_upload ?api 7 (upload_msg '''' 0) (toy_pending [''x'', ''y'']) =
      Some (cleanup_lua_upload ((toy_pending [''x'', ''y''])\<lparr>trace := concat (map ok_events ?cs)\<rparr>))"
    using run by simp
  moreover have "loads (emitted (toy_pending [''x'', ''y''])
      (cleanup_lua_upload ((toy_pending [''x'', ''y''])\<lparr>trace := concat (map ok_events ?cs)\<rparr>))) =
        [(bytes_of ''x'', 1, bytes_of ''a.lua''), (bytes_of ''y'', 1, bytes_of ''a.lua'')]"
    by (simp add: emitted_cleanup)
      (simp add: emitted_def toy_pending_def toy_state_def ok_events_def chunk_log_def
        chunk_load_def c_string_name_a_lua, simp add: bytes_of_def)
  ultimately show ?thesis using one by blast
qed

subsection \<open>Commit\<close>

text \<open>
  The theorems on \<^verbatim>\<open>commit_lua_upload\<close> are stated for a buffer that holds a list
  \<open>cs\<close> of chunks as \<^verbatim>\<open>handle_lua_upload\<close> writes them (\<open>encode_chunks cs\<close>, each
  file name 64 bytes long with a zero in its last byte) and that is shorter than
  \<open>2 ^ 32\<close> bytes, the range of the loop's 32-bit offset. Every buffer that uploads
  build from the empty one is such a list (\<open>upload_session_pending\<close>); its length is
  not bounded by the code and stays a hypothesis.
\<close>

text \<open>
  C3. Whenever \<^verbatim>\<open>commit_lua_upload\<close> returns, the pending buffer is empty: both the
  normal end of the loop and the two \<^verbatim>\<open>goto\<close>s lead to \<^verbatim>\<open>cleanup_lua_upload\<close>.
  And it does return, with the buffer empty, when no call of an uploaded chunk runs
  forever.
\<close>

theorem commit_clears_buffer:
  "(commit_lua_upload api cxn_id msg s = Some s' \<longrightarrow> upload_chunks s' = []) \<and>
   ((\<forall>c\<in>set cs. wf_chunk c) \<and> length (encode_chunks cs) < 2 ^ 32 \<and>
    upload_chunks s = encode_chunks cs \<and> (\<forall>L c. lua_pcall api L 0 0 0 c \<noteq> None) \<longrightarrow>
      (\<exists>s1. commit_lua_upload api cxn_id msg s = Some s1 \<and> upload_chunks s1 = []))"
proof (intro conjI impI)
  assume "commit_lua_upload api cxn_id msg s = Some s'"
  then show "upload_chunks s' = []"
    by (auto simp add: commit_lua_upload_def cleanup_lua_upload_def xbuf_reset_def)
next
  assume a: "(\<forall>c\<in>set cs. wf_chunk c) \<and> length (encode_chunks cs) < 2 ^ 32 \<and>
    upload_chunks s = encode_chunks cs \<and> (\<forall>L c. lua_pcall api L 0 0 0 c \<noteq> None)"
  then have "run_chunks api cxn_id msg cs s \<noteq> None"
    by (intro run_chunks_total) simp
  then obtain s2 where "run_chunks api cxn_id msg cs s = Some s2"
    by auto
  then have "commit_lua_upload api cxn_id msg s = Some (cleanup_lua_upload s2)"
    using a commit_lua_upload_run_chunks [of cs s api cxn_id msg] by simp
  then show "\<exists>s1. commit_lua_upload api cxn_id msg s = Some s1 \<and> upload_chunks s1 = []"
    by (simp add: cleanup_lua_upload_def xbuf_reset_def)
qed

theorem commit_clears_buffer_witness:
  "commit_lua_upload (toy_lua [] []) 7 (upload_msg '''' 0) (toy_pending [''x'']) =
     Some toy_load_failed \<and>
   upload_chunks toy_load_failed = [] \<and>
   (\<exists>s1. commit_lua_upload (toy_lua [] []) 7 (upload_msg '''' 0) (toy_pending [''x'']) = Some s1 \<and>
      upload_chunks s1 = [])"
  using commit_clears_buffer [of "toy_lua [] []" 7 "upload_msg '''' 0" "toy_pending [''x'']"
      toy_load_failed "map (\<lambda>code. (name_a_lua, bytes_of code)) [''x'']"]
    toy_commit_x toy_pending_wf(2) toy_pending_length(2) toy_pcall_total [of "[]" "[]"]
  by (simp add: toy_pending_def)

text \<open>
  C4. If a commit over the chunks \<open>pre\<close> has a failed compilation or a failed call,
  then a commit over \<open>pre\<close> followed by any further chunks \<open>post\<close> ends in the very
  same state: the same trace, so nothing of \<open>post\<close> is compiled or executed, and the
  same interpreter state. In the trace of the commit no call into Lua follows the
  first failed one, and the buffer is empty at the end.
\<close>

theorem commit_stops_at_first_failure:
  assumes "\<forall>c\<in>set (pre @ post). wf_chunk c"
    and "length (encode_chunks (pre @ post)) < 2 ^ 32"
    and "upload_chunks s = encode_chunks pre"
    and "commit_lua_upload api cxn_id msg s = Some s'"
    and "\<exists>e\<in>set (emitted s s'). failed e"
  shows "commit_lua_upload api cxn_id msg (s\<lparr>upload_chunks := encode_chunks (pre @ post)\<rparr>) = Some s'
    \<and> (\<forall>e\<in>set (after_failure (emitted s s')). \<not> is_lua_call e)
    \<and> upload_chunks s' = []"
proof -
  have wf: "\<forall>c\<in>set pre. wf_chunk c" using assms(1) by simp
  have "encode_chunks (pre @ post) = encode_chunks pre @ encode_chunks post"
    by (simp add: encode_chunks_def)
  then have len: "length (encode_chunks pre) < 2 ^ 32" using assms(2) by simp
  from assms(4) obtain s1 where run: "run_chunks api cxn_id msg pre s = Some s1"
    and s': "s' = cleanup_lua_upload s1"
    using wf len assms(3) by (auto simp add: commit_lua_upload_run_chunks)
  have f: "\<exists>e\<in>set (emitted s s1). failed e"
    using assms(5) by (simp add: s' emitted_cleanup)
  let ?s = "s\<lparr>upload_chunks := encode_chunks (pre @ post)\<rparr>"
  have "run_chunks api cxn_id msg (pre @ post) s = Some s1"
    using run f by (rule run_chunks_stop)
  then have "run_chunks api cxn_id msg (pre @ post) ?s =
      Some (s1\<lparr>upload_chunks := encode_chunks (pre @ post)\<rparr>)"
    by (simp add: run_chunks_upload_chunks)
  moreover have "commit_lua_upload api cxn_id msg ?s =
      map_option cleanup_lua_upload (run_chunks api cxn_id msg (pre @ post) ?s)"
    using assms(1,2) by (intro commit_lua_upload_run_chunks) simp_all
  ultimately have one: "commit_lua_upload api cxn_id msg ?s = Some s'"
    by (simp add: s' cleanup_lua_upload_def xbuf_reset_def)
  from commit_lua_upload_trace [OF wf len assms(3,4)] consider
    (ok) "emitted s s' = concat (map ok_events pre)"
    | (fail) pre' c t where "fail_events cxn_id msg c t"
        "emitted s s' = concat (map ok_events pre') @ t"
    by blast
  then have two: "\<forall>e\<in>set (after_failure (emitted s s')). \<not> is_lua_call e"
  proof cases
    case ok
    then show ?thesis by (simp add: after_failure_all_ok)
  next
    case fail
    then show ?thesis
      using fail_events_after by (simp add: after_failure_ok_events)
  qed
  have "upload_chunks s' = []"
    by (simp add: s' cleanup_lua_upload_def xbuf_reset_def)
  with one two show ?thesis by blast
qed

theorem commit_stops_at_first_failure_witness:
  "commit_lua_upload (toy_lua [] []) 7 (upload_msg '''' 0)
     ((toy_pending [''x''])\<lparr>upload_chunks :=
        encode_chunks ([(name_a_lua, bytes_of ''x'')] @ [(name_a_lua, bytes_of ''y'')])\<rparr>) =
     Some toy_load_failed \<and>
   upload_chunks toy_load_failed = []"
proof -
  have f: "\<exists>e\<in>set (emitted (toy_pending [''x'']) toy_load_failed). failed e"
    by (simp add: toy_load_failed_emitted load_fail_events_def chunk_load_def chunk_log_def)
  have wf: "\<forall>c\<in>set ([(name_a_lua, bytes_of ''x'')] @ [(name_a_lua, bytes_of ''y'')]). wf_chunk c"
    using toy_pending_wf(1) by simp
  have len: "length (encode_chunks ([(name_a_lua, bytes_of ''x'')] @ [(name_a_lua, bytes_of ''y'')]))
      < 2 ^ 32"
    using toy_pending_length(1) by simp
  have buf: "upload_chunks (toy_pending [''x'']) = encode_chunks [(name_a_lua, bytes_of ''x'')]"
    by (simp add: toy_pending_def)
  from commit_stops_at_first_failure [OF wf len buf toy_commit_x f]
  show ?thesis by blast
qed

text \<open>
  C6. The error replies sent during a commit that returns: exactly one when some
  compilation or some call of the commit failed, none otherwise. A commit whose buffer
  holds a chunk that the interpreter never compiles returns and has sent exactly one
  reply. For a chunk \<open>c\<close> at any position: when the commit of the chunks before it
  alone ends without failure in state \<open>sp\<close>, and in that state \<^verbatim>\<open>luaL_loadbuffer\<close>
  returns a status \<open>rc\<close> other than zero for \<open>c\<close>, the commit ends in \<open>sp\<close> with the
  events \<open>load_fail_events\<close> appended; when \<open>c\<close> compiles and its call returns a status
  other than zero, it ends with \<open>exec_fail_events\<close> appended. Both lists end with the
  same reply: to the connection the message came from, carrying the message, of type
  \<^verbatim>\<open>OF_ERROR_TYPE_BAD_REQUEST\<close> and code \<^verbatim>\<open>OF_REQUEST_FAILED_EPERM\<close>; it is the
  only reply of the commit.
\<close>

theorem commit_failure_reply:
  assumes "\<forall>c\<in>set cs. wf_chunk c"
    and "length (encode_chunks cs) < 2 ^ 32"
    and "upload_chunks s = encode_chunks cs"
  shows "(commit_lua_upload api cxn_id msg s = Some s' \<longrightarrow>
      filter is_reply (emitted s s') =
        (if \<exists>e\<in>set (emitted s s'). failed e
         then [Send_error_reply cxn_id msg OF_ERROR_TYPE_BAD_REQUEST OF_REQUEST_FAILED_EPERM]
         else [])) \<and>
    ((\<forall>L x. lua_pcall api L 0 0 0 x \<noteq> None) \<and>
     (\<exists>c\<in>set cs. \<forall>L.
        fst (luaL_loadbuffer api L (snd c) (of_nat (length (snd c))) (c_string (fst c))) \<noteq> 0) \<longrightarrow>
      (\<exists>s1. commit_lua_upload api cxn_id msg s = Some s1 \<and>
         filter is_reply (emitted s s1) =
           [Send_error_reply cxn_id msg OF_ERROR_TYPE_BAD_REQUEST OF_REQUEST_FAILED_EPERM])) \<and>
    (cs = pre @ c # post \<and>
     commit_lua_upload api cxn_id msg (s\<lparr>upload_chunks := encode_chunks pre\<rparr>) = Some sp \<and>
     (\<forall>e\<in>set (emitted s sp). \<not> failed e) \<and>
     luaL_loadbuffer api (lua sp) (snd c) (of_nat (length (snd c))) (c_string (fst c)) = (rc, L1) \<and>
     rc \<noteq> 0 \<longrightarrow>
      (\<exists>s1. commit_lua_upload api cxn_id msg s = Some s1 \<and>
         s1 = sp\<lparr>lua := L1,
           trace := trace sp @ load_fail_events cxn_id msg c rc (lua_tostring api L1 (- 1))\<rparr> \<and>
         filter is_reply (emitted s s1) =
           [Send_error_reply cxn_id msg OF_ERROR_TYPE_BAD_REQUEST OF_REQUEST_FAILED_EPERM])) \<and>
    (cs = pre @ c # post \<and>
     commit_lua_upload api cxn_id msg (s\<lparr>upload_chunks := encode_chunks pre\<rparr>) = Some sp \<and>
     (\<forall>e\<in>set (emitted s sp). \<not> failed e) \<and>
     luaL_loadbuffer api (lua sp) (snd c) (of_nat (length (snd c))) (c_string (fst c)) = (0, L2) \<and>
     lua_pcall api (lua_setfenv api (lua_getglobal api L2 ''sandbox'') (- 2)) 0 0 0 (ctx sp) =
       Some (rc', L4, x4) \<and>
     rc' \<noteq> 0 \<longrightarrow>
      (\<exists>s1. commit_lua_upload api cxn_id msg s = Some s1 \<and>
         s1 = sp\<lparr>lua := L4, ctx := x4,
           trace := trace sp @ exec_fail_events cxn_id msg c rc' (lua_tostring api L4 (- 1))\<rparr> \<and>
         filter is_reply (emitted s s1) =
           [Send_error_reply cxn_id msg OF_ERROR_TYPE_BAD_REQUEST OF_REQUEST_FAILED_EPERM]))"
proof -
  let ?R = "Send_error_reply cxn_id msg OF_ERROR_TYPE_BAD_REQUEST OF_REQUEST_FAILED_EPERM"
  have replies: "filter is_reply (emitted s s2) = (if \<exists>e\<in>set (emitted s s2). failed e then [?R] else [])"
    if "commit_lua_upload api cxn_id msg s = Some s2" for s2
    using commit_lua_upload_trace [OF assms that] by (rule replies_of_shape)
  have one: "commit_lua_upload api cxn_id msg s = Some s' \<longrightarrow>
      filter is_reply (emitted s s') = (if \<exists>e\<in>set (emitted s s'). failed e then [?R] else [])"
    using replies by blast
  have two: "\<exists>s1. commit_lua_upload api cxn_id msg s = Some s1 \<and> filter is_reply (emitted s s1) = [?R]"
    if tot: "\<forall>L x. lua_pcall api L 0 0 0 x \<noteq> None"
      and nc: "\<exists>c\<in>set cs. \<forall>L.
        fst (luaL_loadbuffer api L (snd c) (of_nat (length (snd c))) (c_string (fst c))) \<noteq> 0"
  proof -
    from nc obtain d where d: "d \<in> set cs"
      "\<And>L. fst (luaL_loadbuffer api L (snd d) (of_nat (length (snd d))) (c_string (fst d))) \<noteq> 0"
      by blast
    have "\<exists>s2. run_chunks api cxn_id msg cs s = Some s2 \<and> (\<exists>e\<in>set (emitted s s2). failed e)"
      using tot d by (intro run_chunks_never_compiles) auto
    then obtain s2 where run: "run_chunks api cxn_id msg cs s = Some s2"
      and f: "\<exists>e\<in>set (emitted s s2). failed e"
      by blast
    have c: "commit_lua_upload api cxn_id msg s = Some (cleanup_lua_upload s2)"
      using commit_lua_upload_run_chunks [OF assms, of api cxn_id msg] run by simp
    have "\<exists>e\<in>set (emitted s (cleanup_lua_upload s2)). failed e"
      using f by (simp add: emitted_cleanup)
    then show ?thesis
      using c replies [OF c] by auto
  qed
  have fail: "\<exists>s1. commit_lua_upload api cxn_id msg s = Some s1 \<and> s1 = sp\<lparr>lua := L, ctx := x,
        trace := trace sp @ u\<rparr> \<and> filter is_reply (emitted s s1) = [?R]"
    if cs: "cs = pre @ c # post"
      and p: "commit_lua_upload api cxn_id msg (s\<lparr>upload_chunks := encode_chunks pre\<rparr>) = Some sp"
      and ok: "\<forall>e\<in>set (emitted s sp). \<not> failed e"
      and run: "run_chunks api cxn_id msg (c # post) sp = Some (sp\<lparr>lua := L, ctx := x,
        trace := trace sp @ u\<rparr>)"
      and u: "\<exists>e\<in>set u. failed e"
    for L x u
  proof -
    let ?s1 = "sp\<lparr>lua := L, ctx := x, trace := trace sp @ u\<rparr>"
    have empty: "upload_chunks sp = []"
      using p by (rule upload_chunks_after_commit)
    have "commit_lua_upload api cxn_id msg s =
        map_option cleanup_lua_upload (run_chunks api cxn_id msg (c # post) sp)"
      using assms p ok unfolding cs by (rule commit_lua_upload_after_prefix)
    then have c: "commit_lua_upload api cxn_id msg s = Some ?s1"
      using run empty by (simp add: cleanup_lua_upload_def xbuf_reset_def)
    have t: "trace sp = trace s @ emitted s sp"
    proof -
      let ?P = "s\<lparr>upload_chunks := encode_chunks pre\<rparr>"
      have "\<forall>c\<in>set pre. wf_chunk c" using assms(1) cs by simp
      moreover have "length (encode_chunks pre) < 2 ^ 32"
        using assms(2) cs by (simp add: encode_chunks_def)
      moreover have "upload_chunks ?P = encode_chunks pre" by simp
      ultimately have "trace sp = trace ?P @ emitted ?P sp"
        using p by (rule commit_lua_upload_extends)
      then show ?thesis by (simp add: emitted_def)
    qed
    have "emitted s ?s1 = emitted s sp @ u"
      using arg_cong [OF t, of length] by (simp add: emitted_def)
    then have "\<exists>e\<in>set (emitted s ?s1). failed e"
      using u by auto
    then show ?thesis
      using c replies [OF c] by auto
  qed
  have three: "\<exists>s1. commit_lua_upload api cxn_id msg s = Some s1 \<and>
         s1 = sp\<lparr>lua := L1,
           trace := trace sp @ load_fail_events cxn_id msg c rc (lua_tostring api L1 (- 1))\<rparr> \<and>
         filter is_reply (emitted s s1) = [?R]"
    if h: "cs = pre @ c # post \<and>
     commit_lua_upload api cxn_id msg (s\<lparr>upload_chunks := encode_chunks pre\<rparr>) = Some sp \<and>
     (\<forall>e\<in>set (emitted s sp). \<not> failed e) \<and>
     luaL_loadbuffer api (lua sp) (snd c) (of_nat (length (snd c))) (c_string (fst c)) = (rc, L1) \<and>
     rc \<noteq> 0"
  proof -
    have "run_chunks api cxn_id msg (c # post) sp =
        Some (sp\<lparr>lua := L1, ctx := ctx sp,
          trace := trace sp @ load_fail_events cxn_id msg c rc (lua_tostring api L1 (- 1))\<rparr>)"
      using h run_chunks_load_fails [of api sp c rc L1 cxn_id msg post] by simp
    moreover have "\<exists>e\<in>set (load_fail_events cxn_id msg c rc (lua_tostring api L1 (- 1))). failed e"
      using h by (simp add: load_fail_events_def chunk_load_def)
    ultimately show ?thesis
      using fail [where L = L1 and x = "ctx sp"] h by simp
  qed
  have four: "\<exists>s1. commit_lua_upload api cxn_id msg s = Some s1 \<and>
         s1 = sp\<lparr>lua := L4, ctx := x4,
           trace := trace sp @ exec_fail_events cxn_id msg c rc' (lua_tostring api L4 (- 1))\<rparr> \<and>
         filter is_reply (emitted s s1) = [?R]"
    if h: "cs = pre @ c # post \<and>
     commit_lua_upload api cxn_id msg (s\<lparr>upload_chunks := encode_chunks pre\<rparr>) = Some sp \<and>
     (\<forall>e\<in>set (emitted s sp). \<not> failed e) \<and>
     luaL_loadbuffer api (lua sp) (snd c) (of_nat (length (snd c))) (c_string (fst c)) = (0, L2) \<and>
     lua_pcall api (lua_setfenv api (lua_getglobal api L2 ''sandbox'') (- 2)) 0 0 0 (ctx sp) =
       Some (rc', L4, x4) \<and>
     rc' \<noteq> 0"
  proof -
    have "run_chunks api cxn_id msg (c # post) sp =
        Some (sp\<lparr>lua := L4, ctx := x4,
          trace := trace sp @ exec_fail_events cxn_id msg c rc' (lua_tostring api L4 (- 1))\<rparr>)"
      using h run_chunks_call_fails [of api sp c L2 rc' L4 x4 cxn_id msg post] by simp
    moreover have "\<exists>e\<in>set (exec_fail_events cxn_id msg c rc' (lua_tostring api L4 (- 1))). failed e"
      using h by (simp add: exec_fail_events_def chunk_load_def)
    ultimately show ?thesis
      using fail [where L = L4 and x = x4] h by simp
  qed
  from one two three four show ?thesis by blast
qed

theorem commit_failure_reply_witness:
  "(\<exists>s1. commit_lua_upload (toy_lua [] []) 7 (upload_msg '''' 0) (toy_pending [''x'']) = Some s1 \<and>
      lua s1 = [bytes_of ''syntax error''] \<and>
      filter is_reply (emitted (toy_pending [''x'']) s1) =
        [Send_error_reply 7 (upload_msg '''' 0) OF_ERROR_TYPE_BAD_REQUEST OF_REQUEST_FAILED_EPERM]) \<and>
   (\<exists>s1. commit_lua_upload (toy_lua [bytes_of ''x''] [bytes_of ''x'']) 7 (upload_msg '''' 0)
        (toy_pending [''x'']) = Some s1 \<and>
      lua s1 = [bytes_of ''fault''] \<and>
      filter is_reply (emitted (toy_pending [''x'']) s1) =
        [Send_error_reply 7 (upload_msg '''' 0) OF_ERROR_TYPE_BAD_REQUEST OF_REQUEST_FAILED_EPERM])"
proof -
  let ?c = "(name_a_lua, bytes_of ''x'')"
  let ?s = "toy_pending [''x'']"
  let ?sp = "?s\<lparr>upload_chunks := encode_chunks []\<rparr>"
  have wf: "\<forall>c\<in>set [?c]. wf_chunk c"
    using toy_pending_wf(2) by simp
  have len: "length (encode_chunks [?c]) < 2 ^ 32"
    using toy_pending_length(2) by simp
  have buf: "upload_chunks ?s = encode_chunks [?c]"
    by (simp add: toy_pending_def)
  have a: "commit_lua_upload (toy_lua [] []) 7 (upload_msg '''' 0) ?sp = Some ?sp"
    "commit_lua_upload (toy_lua [bytes_of ''x''] [bytes_of ''x'']) 7 (upload_msg '''' 0) ?sp = Some ?sp"
    by (simp_all add: commit_lua_upload_empty encode_chunks_Nil)
  have e: "\<forall>e\<in>set (emitted ?s ?sp). \<not> failed e"
    by (simp add: emitted_def)
  have l1: "luaL_loadbuffer (toy_lua [] []) (lua ?sp) (snd ?c) (of_nat (length (snd ?c)))
      (c_string (fst ?c)) = (3, [bytes_of ''syntax error''])"
    by (simp add: toy_lua_def toy_pending_def toy_state_def)
  have l2: "luaL_loadbuffer (toy_lua [bytes_of ''x''] [bytes_of ''x'']) (lua ?sp) (snd ?c)
      (of_nat (length (snd ?c))) (c_string (fst ?c)) = (0, [bytes_of ''x''])"
    by (simp add: toy_lua_def toy_pending_def toy_state_def)
  have p2: "lua_pcall (toy_lua [bytes_of ''x''] [bytes_of ''x''])
      (lua_setfenv (toy_lua [bytes_of ''x''] [bytes_of ''x''])
         (lua_getglobal (toy_lua [bytes_of ''x''] [bytes_of ''x'']) [bytes_of ''x''] ''sandbox'') (- 2))
      0 0 0 (ctx ?sp) = Some (2, [bytes_of ''fault''], ctx ?sp)"
    by (simp add: toy_lua_def)
  from commit_failure_reply [where api = "toy_lua [] []" and cxn_id = 7
      and msg = "upload_msg '''' 0" and pre = "[]" and c = ?c and post = "[]" and sp = ?sp
      and rc = 3 and ?L1.0 = "[bytes_of ''syntax error'']", OF wf len buf,
      THEN conjunct2, THEN conjunct2, THEN conjunct1]
    a(1) e l1
  have one: "\<exists>s1. commit_lua_upload (toy_lua [] []) 7 (upload_msg '''' 0) ?s = Some s1 \<and>
      lua s1 = [bytes_of ''syntax error''] \<and>
      filter is_reply (emitted ?s s1) =
        [Send_error_reply 7 (upload_msg '''' 0) OF_ERROR_TYPE_BAD_REQUEST OF_REQUEST_FAILED_EPERM]"
    by simp
  from commit_failure_reply [where api = "toy_lua [bytes_of ''x''] [bytes_of ''x'']"
      and cxn_id = 7 and msg = "upload_msg '''' 0" and pre = "[]" and c = ?c and post = "[]"
      and sp = ?sp and ?L2.0 = "[bytes_of ''x'']" and rc' = 2 and ?L4.0 = "[bytes_of ''fault'']"
      and ?x4.0 = "ctx ?sp", OF wf len buf, THEN conjunct2, THEN conjunct2, THEN conjunct2]
    a(2) e l2 p2
  have two: "\<exists>s1. commit_lua_upload (toy_lua [bytes_of ''x''] [bytes_of ''x'']) 7 (upload_msg '''' 0)
        ?s = Some s1 \<and>
      lua s1 = [bytes_of ''fault''] \<and>
      filter is_reply (emitted ?s s1) =
        [Send_error_reply 7 (upload_msg '''' 0) OF_ERROR_TYPE_BAD_REQUEST OF_REQUEST_FAILED_EPERM]"
    by simp
  from one two show ?thesis by blast
qed

subsection \<open>An upload split over two messages\<close>

text \<open>
  C2. The source of \<^verbatim>\<open>function process() end\<close> is uploaded under one file name in two
  messages, \<^verbatim>\<open>function proc\<close> with the MORE bit set and \<^verbatim>\<open>ess() end\<close> without it,
  to an interpreter that compiles the whole source and nothing else. The commit hands
  \<^verbatim>\<open>luaL_loadbuffer\<close> the first payload alone, which does not compile, sends an error
  reply and drops both chunks; the concatenation is never compiled. The handler keeps
  one chunk per message, as its comment
  \<^verbatim>\<open>TODO concatenate consecutive messages with the same filename\<close> records.
\<close>

theorem split_upload_compiles_fragment:
  "\<exists>s'. Option.bind
       (handle_lua_upload (toy_lua [bytes_of ''function process() end''] []) 0 7
          (upload_msg ''function proc'' 1) toy_state)
       (handle_lua_upload (toy_lua [bytes_of ''function process() end''] []) 0 7
          (upload_msg ''ess() end'' 0)) = Some s' \<and>
     loads (trace s') = [(bytes_of ''function proc'', 13, bytes_of ''a.lua'')] \<and>
     filter is_reply (trace s') =
       [Send_error_reply 7 (upload_msg ''ess() end'' 0)
          OF_ERROR_TYPE_BAD_REQUEST OF_REQUEST_FAILED_EPERM] \<and>
     upload_chunks s' = []"
proof -
  let ?api = "toy_lua [bytes_of ''function process() end''] []"
  let ?c1 = "(name_a_lua, bytes_of ''function proc'')"
  let ?c2 = "(name_a_lua, bytes_of ''ess() end'')"
  let ?up = "\<lambda>n. AIM_LOG VERBOSE ''Uploaded Lua chunk %s, %u bytes''
     [CStr (c_string name_a_lua), U32 n]"
  let ?s1 = "toy_state\<lparr>upload_chunks := encode_chunks [?c1], trace := [?up 13]\<rparr>"
  let ?s2 = "toy_state\<lparr>upload_chunks := encode_chunks [?c1, ?c2], trace := [?up 13, ?up 9]\<rparr>"
  have z: "name_a_lua ! 63 = 0"
    by (simp add: name_a_lua_def bytes_of_def nth_append)
  have st: "store_chunk 0 name_a_lua dat s =
     s\<lparr>upload_chunks := upload_chunks s @ encode_chunk (name_a_lua, dat),
       trace := trace s @
         [AIM_LOG VERBOSE ''Uploaded Lua chunk %s, %u bytes''
            [CStr (c_string name_a_lua), U32 (of_nat (length dat))]]\<rparr>"
    for dat and s :: "(byte list list, unit, unit, unit) state"
    using length_name_a_lua z by (rule store_chunk_eq)
  have h1: "handle_lua_upload ?api 0 7 (upload_msg ''function proc'' 1) toy_state = Some ?s1"
    by (simp add: handle_lua_upload_def upload_msg_def OFP_BSN_LUA_UPLOAD_MORE_def Let_def
        name_a_lua_terminated st bytes_of_def toy_state_def xbuf_init_def encode_chunks_def)
  have h2: "handle_lua_upload ?api 0 7 (upload_msg ''ess() end'' 0) ?s1 =
      commit_lua_upload ?api 7 (upload_msg ''ess() end'' 0) ?s2"
    by (simp add: handle_lua_upload_def upload_msg_def OFP_BSN_LUA_UPLOAD_MORE_def Let_def
        name_a_lua_terminated st bytes_of_def toy_state_def xbuf_init_def encode_chunks_def)
  have wf: "\<forall>c\<in>set [?c1, ?c2]. wf_chunk c"
    by (simp add: wf_name_a_lua)
  have len: "length (encode_chunks [?c1, ?c2]) < 2 ^ 32"
    by (simp add: encode_chunks_def encode_chunk_def length_store_u32 name_a_lua_def bytes_of_def)
  have "commit_lua_upload ?api 7 (upload_msg ''ess() end'' 0) ?s2 =
      map_option cleanup_lua_upload
        (run_chunks ?api 7 (upload_msg ''ess() end'' 0) [?c1, ?c2] ?s2)"
    using wf len by (rule commit_lua_upload_run_chunks) simp
  also have "\<dots> = Some (toy_state\<lparr>lua := [bytes_of ''syntax error''],
      trace := [?up 13, ?up 9] @
        load_fail_events 7 (upload_msg ''ess() end'' 0) ?c1 3 ''message''\<rparr>)"
    by (simp add: toy_lua_def toy_state_def Let_def cleanup_lua_upload_def xbuf_reset_def
        xbuf_init_def load_fail_events_def chunk_log_def chunk_load_def error_reply_def
        bytes_of_def)
  finally have c: "commit_lua_upload ?api 7 (upload_msg ''ess() end'' 0) ?s2 =
      Some (toy_state\<lparr>lua := [bytes_of ''syntax error''],
        trace := [?up 13, ?up 9] @
          load_fail_events 7 (upload_msg ''ess() end'' 0) ?c1 3 ''message''\<rparr>)" .
  have n: "c_string name_a_lua = bytes_of ''a.lua''"
    by (simp add: c_string_def name_a_lua_def bytes_of_def)
  show ?thesis
    unfolding h1 bind.bind_lunit h2 c
    by (simp add: load_fail_events_def chunk_log_def chunk_load_def error_reply_def n
        toy_state_def xbuf_init_def)
      (simp add: bytes_of_def)
qed

end
